theory Spec2Isabelle
  imports Main "HOL-Library.Sublist"
begin

section \<open>Strings and values\<close>

text \<open>
  A JavaScript string is a sequence of UTF-16 code units. The development uses
  \<^typ>\<open>string\<close> and reads a \<^typ>\<open>char\<close> as a code unit below 256, so that
  \<^const>\<open>length\<close> is the \<^verbatim>\<open>.length\<close> of the source on such strings.
  On this alphabet the class \<^verbatim>\<open>\s\<close> of a regular expression and the characters
  removed by \<^verbatim>\<open>trim()\<close> are tab, line feed, vertical tab, form feed, carriage
  return, space and the no-break space.
\<close>

definition is_space :: "char \<Rightarrow> bool" where
  "is_space c =
     (c \<in> set [CHR 0x09, CHR 0x0A, CHR 0x0B, CHR 0x0C, CHR 0x0D, CHR 0x20, CHR 0xA0])"

definition trim :: "string \<Rightarrow> string" where
  "trim s = rev (dropWhile is_space (rev (dropWhile is_space s)))"

text \<open>
  \<^verbatim>\<open>toLowerCase()\<close> on code units below 256: the letters A to Z and the Latin-1
  capitals (0xC0 to 0xDE without the multiplication sign 0xD7) move up by 32, which
  sets the bit of weight 32.
\<close>

definition lower_char :: "char \<Rightarrow> char" where
  "lower_char c =
     (let n = (of_char c :: nat) in
      if (65 \<le> n \<and> n \<le> 90) \<or> (192 \<le> n \<and> n \<le> 222 \<and> n \<noteq> 215)
      then (case c of Char b0 b1 b2 b3 b4 b5 b6 b7 \<Rightarrow> Char b0 b1 b2 b3 b4 True b6 b7)
      else c)"

definition toLowerCase :: "string \<Rightarrow> string" where
  "toLowerCase s = map lower_char s"

text \<open>
  The values \<^verbatim>\<open>JSON.parse\<close> returns. An object is the list of its properties in
  insertion order. The modelled code never computes with a parsed number.
\<close>

datatype json =
    JNull
  | JBool bool
  | JNum int
  | JStr string
  | JArr "json list"
  | JObj "(string \<times> json) list"

text \<open>
  What the source throws: \<^verbatim>\<open>new Error(message)\<close>, or a \<^verbatim>\<open>TypeError\<close> raised by
  the engine (calling a method of \<^verbatim>\<open>undefined\<close>, reading a property of
  \<^verbatim>\<open>null\<close>), whose message is the engine's text.
\<close>

datatype thrown = Error string | TypeError string

fun message_of :: "thrown \<Rightarrow> string" where
  "message_of (Error m) = m"
| "message_of (TypeError m) = m"

section \<open>Regular expressions of the source\<close>

text \<open>
  The patterns of the source are sequences of literals and runs of white space, searched
  anywhere in the subject. In each of them a run \<^verbatim>\<open>\s+\<close> or \<^verbatim>\<open>\s*\<close> is followed
  by a literal whose first character is not white space, so the run takes all the white
  space there is and backtracking into it cannot produce another match.
\<close>

datatype atom = Lit string | Spaces1 | Spaces0

fun strip_prefix :: "string \<Rightarrow> string \<Rightarrow> string option" where
  "strip_prefix [] s = Some s"
| "strip_prefix (p # ps) [] = None"
| "strip_prefix (p # ps) (c # cs) = (if p = c then strip_prefix ps cs else None)"

fun match_atoms :: "atom list \<Rightarrow> string \<Rightarrow> string option" where
  "match_atoms [] s = Some s"
| "match_atoms (Lit l # as) s =
     (case strip_prefix l s of None \<Rightarrow> None | Some r \<Rightarrow> match_atoms as r)"
| "match_atoms (Spaces1 # as) s =
     (case s of
        [] \<Rightarrow> None
      | c # cs \<Rightarrow> if is_space c then match_atoms as (dropWhile is_space cs) else None)"
| "match_atoms (Spaces0 # as) s = match_atoms as (dropWhile is_space s)"

text \<open>\<^verbatim>\<open>pattern.test(s)\<close> without anchors: a match starts at some position of \<open>s\<close>.\<close>

fun test :: "atom list \<Rightarrow> string \<Rightarrow> bool" where
  "test p [] = (match_atoms p [] \<noteq> None)"
| "test p (c # cs) = (match_atoms p (c # cs) \<noteq> None \<or> test p cs)"

section \<open>Command executor (src/system-tools.js)\<close>

text \<open>
  \<^verbatim>\<open>dangerousPatterns\<close>, in the order of the source. \<^verbatim>\<open>[^\/]*\<close> at the end of the
  first pattern also matches the empty string and adds nothing to the test. The flag
  \<^verbatim>\<open>i\<close> of the second and third pattern changes nothing on a subject that is already
  in lower case. The sixth pattern, \<^verbatim>\<open>/:(){ :|:& };:/\<close>, is an alternation of
  \<^verbatim>\<open>:(){ :\<close> (a colon, an empty group, then the three literal characters) and
  \<^verbatim>\<open>:& };:\<close>.
\<close>

definition dangerousPatterns :: "atom list list" where
  "dangerousPatterns =
     [[Lit ''rm'', Spaces1, Lit ''-rf'', Spaces1, Lit ''/''],
      [Lit ''del'', Spaces1, Lit ''/s'', Spaces1, Lit ''/q'', Spaces1, Lit [CHR ''c'', CHR '':'', CHR 0x5C]],
      [Lit ''format'', Spaces1, Lit ''c:''],
      [Lit ''mkfs''],
      [Lit ''dd'', Spaces1, Lit ''if=''],
      [Lit '':{ :''],
      [Lit '':& };:''],
      [Lit ''shutdown''],
      [Lit ''reboot''],
      [Lit ''init'', Spaces1, Lit ''0''],
      [Lit ''systemctl'', Spaces1, Lit ''poweroff'']]"

definition isDangerousCommand :: "string \<Rightarrow> bool" where
  "isDangerousCommand command =
     (let lowerCmd = toLowerCase command in
      list_ex (\<lambda>pattern. test pattern lowerCmd) dangerousPatterns)"

text \<open>
  The exit code of a record: a number, the name of a system error (the \<^verbatim>\<open>code\<close> of a
  rejection can be a string), or \<^verbatim>\<open>null\<close>.
\<close>

datatype exit_code = Code int | CodeName string | NoCode

record execution =
  command :: string
  stdout :: string
  stderr :: string
  exitCode :: exit_code
  executionTime :: "int option"
  timestamp :: string
  cwd :: json
  error :: "string option"

record system_tools =
  platform :: string
  isWindows :: bool
  shell :: string
  executionHistory :: "execution list"

text \<open>
  The options \<^verbatim>\<open>executeCommand\<close> hands to \<^verbatim>\<open>exec\<close>, and how the promise of
  \<^verbatim>\<open>execAsync\<close> settles: resolved with the two captured outputs, or rejected with an
  error of which the source reads \<^verbatim>\<open>stdout\<close>, \<^verbatim>\<open>stderr\<close>, \<^verbatim>\<open>code\<close> and
  \<^verbatim>\<open>message\<close>. A command that exits with a non-zero code, a command killed when the
  timeout of the options expires and an output beyond \<^verbatim>\<open>maxBuffer\<close> are all
  rejections.
\<close>

record exec_options =
  opt_timeout :: nat
  opt_cwd :: json
  opt_shell :: string
  opt_maxBuffer :: nat

record exec_error =
  err_stdout :: "string option"
  err_stderr :: "string option"
  err_code :: exit_code
  err_message :: string

datatype exec_result = ExecResolved string string | ExecRejected exec_error

text \<open>
  A message is the object \<^verbatim>\<open>{ role, content }\<close> pushed by \<^verbatim>\<open>addMessage\<close>.
  The role is the string the caller passes; the source compares it with
  \<^verbatim>\<open>'system'\<close> only.
\<close>

record message =
  role :: string
  content :: string

text \<open>
  The body of a request to \<^verbatim>\<open>/api/chat\<close> (the sampling options are numbers that
  no modelled code reads back), and what the handler of \<^verbatim>\<open>streamChat\<close> and
  \<^verbatim>\<open>continueAfterTools\<close> sees of the answer. A line of the stream is a text that
  \<^verbatim>\<open>JSON.parse\<close> refuses (\<open>Unparsable\<close>, skipped by the \<^verbatim>\<open>catch\<close>) or a fragment
  without \<^verbatim>\<open>done\<close>, of which the handler reads the content only (empty when the
  fragment has none). The stream is followed up to the first fragment with
  \<^verbatim>\<open>done\<close>, which carries its content and the counters \<^verbatim>\<open>prompt_eval_count\<close> and
  \<^verbatim>\<open>eval_count\<close> (0 when absent, as \<^verbatim>\<open>|| 0\<close>); or it ends in an \<^verbatim>\<open>error\<close>
  event, or delivers nothing more.
\<close>

record chat_request =
  req_model :: string
  req_messages :: "message list"

datatype line = Unparsable | Delta string

datatype stream_end = Done string nat nat | StreamError string | NoMore

datatype response = RequestFailed string | Stream "line list" stream_end

text \<open>
  What the program takes from outside: the working directory of the process, the
  message the engine gives a \<^verbatim>\<open>TypeError\<close>, the library functions \<^verbatim>\<open>JSON.parse\<close>
  (\<open>None\<close> when it throws, with the message \<open>syntax_error_text\<close> for that text) and
  \<^verbatim>\<open>JSON.stringify\<close> (called with an indentation of 2), the subprocess run by
  \<^verbatim>\<open>exec\<close>, the file-system primitives of \<^verbatim>\<open>SystemTools\<close> (\<^verbatim>\<open>listDirectory\<close>,
  \<^verbatim>\<open>readFile\<close>, \<^verbatim>\<open>writeFile\<close>, \<^verbatim>\<open>getSystemInfo\<close>), the readings of the clock and
  the inference server. The number \<open>k\<close> names the invocation, so that two invocations
  with the same arguments can differ.
\<close>

record env =
  process_cwd :: string
  type_error_text :: string
  syntax_error_text :: "string \<Rightarrow> string"
  JSON_parse :: "string \<Rightarrow> json option"
  JSON_stringify :: "json \<Rightarrow> string"
  run_exec :: "nat \<Rightarrow> string \<Rightarrow> exec_options \<Rightarrow> exec_result"
  exec_elapsed :: "nat \<Rightarrow> int"
  exec_timestamp :: "nat \<Rightarrow> string"
  run_primitive :: "nat \<Rightarrow> string \<Rightarrow> json \<Rightarrow> thrown + json"
  tool_elapsed :: "nat \<Rightarrow> int"
  tool_timestamp :: "nat \<Rightarrow> string"
  post_chat :: "nat \<Rightarrow> chat_request \<Rightarrow> response"

text \<open>The argument \<^verbatim>\<open>options\<close> of \<^verbatim>\<open>executeCommand\<close>; \<open>None\<close> is an absent property.\<close>

record command_options =
  timeout :: "nat option"
  cwd_option :: "json option"

definition no_options :: command_options where
  "no_options = \<lparr>timeout = None, cwd_option = None\<rparr>"

text \<open>\<^verbatim>\<open>x || y\<close> on an optional string: an absent and an empty string are both falsy.\<close>

fun or_string :: "string option \<Rightarrow> string \<Rightarrow> string" where
  "or_string None d = d"
| "or_string (Some s) d = (if s = [] then d else s)"

text \<open>\<^verbatim>\<open>error.code || 1\<close>\<close>

fun or_code :: "exit_code \<Rightarrow> exit_code" where
  "or_code NoCode = Code 1"
| "or_code (Code n) = (if n = 0 then Code 1 else Code n)"
| "or_code (CodeName s) = (if s = [] then Code 1 else CodeName s)"

definition blocked :: thrown where
  "blocked = Error ''Command blocked for security reasons''"

text \<open>
  \<^verbatim>\<open>executeCommand(command, options)\<close>, buffered mode. The result is the value the
  promise settles with (\<open>Inl\<close> when it rejects) and the new state of the executor.
\<close>

definition executeCommand ::
  "env \<Rightarrow> nat \<Rightarrow> string \<Rightarrow> command_options \<Rightarrow> system_tools \<Rightarrow> (thrown + execution) \<times> system_tools" where
  "executeCommand e k cmd options st =
     (let tmo = (case timeout options of None \<Rightarrow> 30000 | Some t \<Rightarrow> t);
          dir = (case cwd_option options of None \<Rightarrow> JStr (process_cwd e) | Some d \<Rightarrow> d)
      in
      if isDangerousCommand cmd then (Inl blocked, st)
      else
        (let execution =
           (case run_exec e k cmd
                   \<lparr>opt_timeout = tmo, opt_cwd = dir, opt_shell = shell st,
                    opt_maxBuffer = 10 * 1024 * 1024\<rparr> of
              ExecResolved out err \<Rightarrow>
                \<lparr>command = cmd, stdout = out, stderr = err, exitCode = Code 0,
                 executionTime = Some (exec_elapsed e k), timestamp = exec_timestamp e k,
                 cwd = dir, error = None\<rparr>
            | ExecRejected x \<Rightarrow>
                \<lparr>command = cmd, stdout = or_string (err_stdout x) [],
                 stderr = or_string (err_stderr x) (err_message x),
                 exitCode = or_code (err_code x),
                 executionTime = Some (exec_elapsed e k), timestamp = exec_timestamp e k,
                 cwd = dir, error = Some (err_message x)\<rparr>)
         in (Inr execution, st\<lparr>executionHistory := executionHistory st @ [execution]\<rparr>)))"

text \<open>
  \<^verbatim>\<open>executeCommandStream(command, onData, options)\<close>. After the check the source
  spawns the child and registers four handlers; what happens next is the sequence of
  events the child and the timer deliver. \<open>TimerFired\<close> is the callback of
  \<^verbatim>\<open>setTimeout(..., 60000)\<close>, which the source never cancels.
\<close>

datatype child_event =
    StdoutData string
  | StderrData string
  | Close exit_code
  | ChildError thrown
  | TimerFired

datatype 'a promise = Pending | Resolved 'a | Rejected thrown

text \<open>\<^verbatim>\<open>resolve\<close> and \<^verbatim>\<open>reject\<close> settle a promise once; later calls do nothing.\<close>

fun settle :: "'a promise \<Rightarrow> 'a promise \<Rightarrow> 'a promise" where
  "settle Pending q = q"
| "settle p q = p"

record stream_run =
  out_buffer :: string
  err_buffer :: string
  delivered :: "(string \<times> string) list"
  kills :: nat
  outcome :: "execution promise"
  tools :: system_tools

definition stream_start :: "system_tools \<Rightarrow> stream_run" where
  "stream_start st =
     \<lparr>out_buffer = [], err_buffer = [], delivered = [], kills = 0, outcome = Pending,
      tools = st\<rparr>"

text \<open>
  One event. \<open>delivered\<close> lists the calls of \<^verbatim>\<open>onData\<close>, \<open>kills\<close> counts the calls of
  \<^verbatim>\<open>child.kill()\<close>.
\<close>

fun stream_event :: "string \<Rightarrow> json \<Rightarrow> string \<Rightarrow> stream_run \<Rightarrow> child_event \<Rightarrow> stream_run" where
  "stream_event cmd dir stamp r (StdoutData text) =
     r\<lparr>out_buffer := out_buffer r @ text, delivered := delivered r @ [(''stdout'', text)]\<rparr>"
| "stream_event cmd dir stamp r (StderrData text) =
     r\<lparr>err_buffer := err_buffer r @ text, delivered := delivered r @ [(''stderr'', text)]\<rparr>"
| "stream_event cmd dir stamp r (Close code) =
     (let execution =
            \<lparr>command = cmd, stdout = out_buffer r, stderr = err_buffer r, exitCode = code,
             executionTime = None, timestamp = stamp, cwd = dir, error = None\<rparr>
      in r\<lparr>tools := (tools r)\<lparr>executionHistory := executionHistory (tools r) @ [execution]\<rparr>,
            outcome := settle (outcome r) (Resolved execution)\<rparr>)"
| "stream_event cmd dir stamp r (ChildError x) =
     r\<lparr>outcome := settle (outcome r) (Rejected x)\<rparr>"
| "stream_event cmd dir stamp r TimerFired =
     r\<lparr>kills := Suc (kills r),
       outcome := settle (outcome r) (Rejected (Error ''Command timeout''))\<rparr>"

text \<open>
  The call: \<open>Inl\<close> when the check throws before the promise exists, otherwise the run
  after the events \<open>evs\<close>.
\<close>

definition executeCommandStream ::
  "env \<Rightarrow> nat \<Rightarrow> string \<Rightarrow> json option \<Rightarrow> child_event list \<Rightarrow> system_tools \<Rightarrow> thrown + stream_run" where
  "executeCommandStream e k cmd cwd_opt evs st =
     (let dir = (case cwd_opt of None \<Rightarrow> JStr (process_cwd e) | Some d \<Rightarrow> d) in
      if isDangerousCommand cmd then Inl blocked
      else Inr (foldl (stream_event cmd dir (exec_timestamp e k)) (stream_start st) evs))"

section \<open>Conversation state (src/agent.js)\<close>

text \<open>
  A record of the call history of \<^verbatim>\<open>executeTool\<close>: the result when the call
  succeeded, the message of the error when it failed.
\<close>

datatype tool_result = Execution execution | Text string | Structured json

record tool_call_record =
  tc_function :: string
  tc_args :: json
  tc_result :: "tool_result option"
  tc_error :: "string option"
  tc_executionTime :: int
  tc_timestamp :: string
  tc_success :: bool

text \<open>
  The fields of \<^verbatim>\<open>PrivateAgent\<close>. The token budget \<^verbatim>\<open>maxContextTokens\<close> is an
  integer. \<^verbatim>\<open>ollamaUrl\<close> (the address of the server) and \<^verbatim>\<open>logs\<close> (console
  logging only) carry no behaviour modelled here.
\<close>

record agent =
  model :: string
  systemPrompt :: string
  maxContextTokens :: int
  conversationHistory :: "message list"
  enableTools :: bool
  systemTools :: system_tools
  toolCallHistory :: "tool_call_record list"

definition reset_notice :: message where
  "reset_notice =
     \<lparr>role = ''system'',
      content = ''[Previous conversation context was reset due to length limit]''\<rparr>"

text \<open>
  \<^verbatim>\<open>this.conversationHistory.reduce((sum, msg) => sum + msg.content.length, 0)\<close>
\<close>

definition totalChars :: "message list \<Rightarrow> nat" where
  "totalChars h = foldl (\<lambda>sum msg. sum + length (content msg)) 0 h"

text \<open>
  \<^verbatim>\<open>Array.prototype.slice(-n)\<close>: the last \<open>n\<close> elements, the whole array when it
  has fewer.
\<close>

definition slice_last :: "nat \<Rightarrow> 'a list \<Rightarrow> 'a list" where
  "slice_last n xs = drop (length xs - n) xs"

definition systemMessages :: "message list \<Rightarrow> message list" where
  "systemMessages h = filter (\<lambda>msg. role msg = ''system'') h"

text \<open>
  \<^verbatim>\<open>estimatedTokens = totalChars / 4\<close> is a division of numbers, not of integers,
  so \<^verbatim>\<open>estimatedTokens > this.maxContextTokens\<close> holds exactly when
  \<open>totalChars > 4 * maxContextTokens\<close>. The function returns the flag of the source
  together with the new state.
\<close>

definition checkAndResetContext :: "agent \<Rightarrow> bool \<times> agent" where
  "checkAndResetContext s =
     (let h = conversationHistory s in
      if 4 * maxContextTokens s < int (totalChars h)
      then (True, s\<lparr>conversationHistory :=
                       systemMessages h @ [reset_notice] @ slice_last 10 h\<rparr>)
      else (False, s))"

text \<open>\<^verbatim>\<open>addMessage\<close> pushes the message, runs the check and drops its flag.\<close>

definition push_message :: "string \<Rightarrow> string \<Rightarrow> agent \<Rightarrow> agent" where
  "push_message r c s =
     s\<lparr>conversationHistory := conversationHistory s @ [\<lparr>role = r, content = c\<rparr>]\<rparr>"

definition addMessage :: "string \<Rightarrow> string \<Rightarrow> agent \<Rightarrow> agent" where
  "addMessage r c s = snd (checkAndResetContext (push_message r c s))"

section \<open>Tool dispatch (src/agent.js)\<close>

text \<open>
  Reading a property of the argument object: \<^verbatim>\<open>args.x\<close> throws a \<^verbatim>\<open>TypeError\<close>
  when \<^verbatim>\<open>args\<close> is \<^verbatim>\<open>null\<close> (or \<^verbatim>\<open>undefined\<close>, which \<open>JNull\<close> also stands for
  here), gives the property of an object (\<open>None\<close> is \<^verbatim>\<open>undefined\<close>) and
  \<^verbatim>\<open>undefined\<close> on every other value, for the names the source reads. The properties
  of an object have distinct names.
\<close>

fun get_prop :: "env \<Rightarrow> json \<Rightarrow> string \<Rightarrow> thrown + json option" where
  "get_prop e JNull x = Inl (TypeError (type_error_text e))"
| "get_prop e (JObj ps) x = Inr (map_of ps x)"
| "get_prop e v x = Inr None"

text \<open>
  The \<^verbatim>\<open>switch\<close> of \<^verbatim>\<open>executeTool\<close>, inside its \<^verbatim>\<open>try\<close>: the value the chosen
  primitive returns, or what it throws, and the new state of the executor. A command
  that is not a string reaches \<^verbatim>\<open>command.toLowerCase()\<close> in \<^verbatim>\<open>isDangerousCommand\<close>,
  a \<^verbatim>\<open>TypeError\<close>. The file-system primitives are taken from the environment;
  \<^verbatim>\<open>getCurrentDirectory\<close> returns \<^verbatim>\<open>process.cwd()\<close>.
\<close>

definition call_primitive ::
  "env \<Rightarrow> nat \<Rightarrow> string \<Rightarrow> json \<Rightarrow> thrown + tool_result" where
  "call_primitive e k name args =
     (case run_primitive e k name args of Inl x \<Rightarrow> Inl x | Inr v \<Rightarrow> Inr (Structured v))"

definition dispatch ::
  "env \<Rightarrow> nat \<Rightarrow> string \<Rightarrow> json \<Rightarrow> system_tools \<Rightarrow> (thrown + tool_result) \<times> system_tools" where
  "dispatch e k functionName args st =
     (if functionName = ''execute_command'' then
        (case get_prop e args ''command'' of
           Inl x \<Rightarrow> (Inl x, st)
         | Inr c \<Rightarrow>
             (case get_prop e args ''cwd'' of
                Inl x \<Rightarrow> (Inl x, st)
              | Inr d \<Rightarrow>
                  (case c of
                     Some (JStr cmd) \<Rightarrow>
                       (case executeCommand e k cmd \<lparr>timeout = None, cwd_option = d\<rparr> st of
                          (Inl x, st') \<Rightarrow> (Inl x, st')
                        | (Inr execution, st') \<Rightarrow> (Inr (Execution execution), st'))
                   | _ \<Rightarrow> (Inl (TypeError (type_error_text e)), st))))
      else if functionName = ''list_directory'' then
        (case get_prop e args ''path'' of
           Inl x \<Rightarrow> (Inl x, st)
         | Inr _ \<Rightarrow> (call_primitive e k functionName args, st))
      else if functionName = ''read_file'' then
        (case get_prop e args ''filepath'' of
           Inl x \<Rightarrow> (Inl x, st)
         | Inr _ \<Rightarrow> (call_primitive e k functionName args, st))
      else if functionName = ''write_file'' then
        (case get_prop e args ''filepath'' of
           Inl x \<Rightarrow> (Inl x, st)
         | Inr _ \<Rightarrow> (call_primitive e k functionName args, st))
      else if functionName = ''get_system_info'' then
        (call_primitive e k functionName args, st)
      else if functionName = ''get_current_directory'' then
        (Inr (Text (process_cwd e)), st)
      else (Inl (Error (''Unknown tool: '' @ functionName)), st))"

definition tool_names :: "string list" where
  "tool_names =
     [''execute_command'', ''list_directory'', ''read_file'', ''write_file'',
      ''get_system_info'', ''get_current_directory'']"

text \<open>
  \<^verbatim>\<open>executeTool(functionName, args)\<close>: the \<^verbatim>\<open>try\<close> pushes a record with
  \<^verbatim>\<open>success: true\<close> and returns the result; the \<^verbatim>\<open>catch\<close> pushes a record with
  \<^verbatim>\<open>success: false\<close> and the message, and throws the error again.
\<close>

definition success_record :: "env \<Rightarrow> nat \<Rightarrow> string \<Rightarrow> json \<Rightarrow> tool_result \<Rightarrow> tool_call_record" where
  "success_record e k functionName args result =
     \<lparr>tc_function = functionName, tc_args = args, tc_result = Some result, tc_error = None,
      tc_executionTime = tool_elapsed e k, tc_timestamp = tool_timestamp e k,
      tc_success = True\<rparr>"

definition failure_record :: "env \<Rightarrow> nat \<Rightarrow> string \<Rightarrow> json \<Rightarrow> thrown \<Rightarrow> tool_call_record" where
  "failure_record e k functionName args x =
     \<lparr>tc_function = functionName, tc_args = args, tc_result = None,
      tc_error = Some (message_of x),
      tc_executionTime = tool_elapsed e k, tc_timestamp = tool_timestamp e k,
      tc_success = False\<rparr>"

definition executeTool ::
  "env \<Rightarrow> nat \<Rightarrow> string \<Rightarrow> json \<Rightarrow> agent \<Rightarrow> (thrown + tool_result) \<times> agent" where
  "executeTool e k functionName args ag =
     (case dispatch e k functionName args (systemTools ag) of
        (Inr result, st') \<Rightarrow>
          (Inr result,
           ag\<lparr>systemTools := st',
              toolCallHistory :=
                toolCallHistory ag @ [success_record e k functionName args result]\<rparr>)
      | (Inl x, st') \<Rightarrow>
          (Inl x,
           ag\<lparr>systemTools := st',
              toolCallHistory :=
                toolCallHistory ag @ [failure_record e k functionName args x]\<rparr>))"

section \<open>Tool-call extraction (src/agent.js)\<close>

text \<open>
  The regular expression of \<^verbatim>\<open>extractToolCalls\<close>, with the flags \<^verbatim>\<open>g\<close> and
  \<^verbatim>\<open>s\<close>:
  \<^verbatim>\<open><tool_call>\s*<function>(.*?)<\/function>\s*<arguments>(.*?)<\/arguments>\s*<\/tool_call>\<close>.
  Its fixed parts are three sequences of atoms.
\<close>

definition open_tags :: "atom list" where
  "open_tags = [Lit ''<tool_call>'', Spaces0, Lit ''<function>'']"

definition middle_tags :: "atom list" where
  "middle_tags = [Lit ''</function>'', Spaces0, Lit ''<arguments>'']"

definition close_tags :: "atom list" where
  "close_tags = [Lit ''</arguments>'', Spaces0, Lit ''</tool_call>'']"

text \<open>
  A lazy group \<^verbatim>\<open>(.*?)\<close> followed by the rest \<open>k\<close> of the pattern: the group takes
  the fewest characters (of any kind, by the flag \<^verbatim>\<open>s\<close>) after which \<open>k\<close> matches.
  The result is the group and what \<open>k\<close> returns.
\<close>

fun lazy :: "(string \<Rightarrow> 'a option) \<Rightarrow> string \<Rightarrow> (string \<times> 'a) option" where
  "lazy k [] = (case k [] of Some r \<Rightarrow> Some ([], r) | None \<Rightarrow> None)"
| "lazy k (c # cs) =
     (case k (c # cs) of
        Some r \<Rightarrow> Some ([], r)
      | None \<Rightarrow> (case lazy k cs of Some (g, r) \<Rightarrow> Some (c # g, r) | None \<Rightarrow> None))"

text \<open>
  The pattern from the second group on, from the first group on, and as a whole: a match
  that starts at the head of the subject gives the two groups and the text after the
  match.
\<close>

definition match_arguments :: "string \<Rightarrow> (string \<times> string) option" where
  "match_arguments s = lazy (match_atoms close_tags) s"

definition match_function :: "string \<Rightarrow> (string \<times> string \<times> string) option" where
  "match_function s =
     lazy (\<lambda>t. case match_atoms middle_tags t of
                 None \<Rightarrow> None
               | Some u \<Rightarrow> match_arguments u) s"

definition match_here :: "string \<Rightarrow> (string \<times> string \<times> string) option" where
  "match_here s =
     (case match_atoms open_tags s of None \<Rightarrow> None | Some t \<Rightarrow> match_function t)"

lemma strip_prefix_length: "strip_prefix l s = Some r \<Longrightarrow> length r + length l = length s"
  by (induction l s rule: strip_prefix.induct) (auto split: if_splits)

lemma match_atoms_length: "match_atoms as s = Some r \<Longrightarrow> length r \<le> length s"
proof (induction as s rule: match_atoms.induct)
  case (1 s)
  then show ?case by simp
next
  case (2 l as s)
  then show ?case
    by (auto split: option.splits dest!: strip_prefix_length)
next
  case (3 as s)
  then show ?case
  proof (cases s)
    case Nil
    with 3 show ?thesis by simp
  next
    case (Cons c cs)
    with 3 have "is_space c" and "match_atoms as (dropWhile is_space cs) = Some r"
      by (auto split: if_splits)
    with 3 Cons have "length r \<le> length (dropWhile is_space cs)" by simp
    also have "\<dots> \<le> length cs" by (rule length_dropWhile_le)
    finally show ?thesis using Cons by simp
  qed
next
  case (4 as s)
  then have "length r \<le> length (dropWhile is_space s)" by simp
  also have "\<dots> \<le> length s" by (rule length_dropWhile_le)
  finally show ?case .
qed

lemma lazy_length:
  assumes "\<And>t r. k t = Some r \<Longrightarrow> length (f r) \<le> length t"
  shows "lazy k s = Some (g, r) \<Longrightarrow> length (f r) \<le> length s"
proof (induction s arbitrary: g)
  case Nil
  then show ?case using assms [of "[]"] by (auto split: option.splits)
next
  case (Cons c cs)
  show ?case
  proof (cases "k (c # cs)")
    case (Some r')
    with Cons.prems assms [of "c # cs" r'] show ?thesis by simp
  next
    case None
    with Cons.prems obtain g' where "lazy k cs = Some (g', r)"
      by (auto split: option.splits)
    from Cons.IH [OF this] show ?thesis by simp
  qed
qed

lemma match_arguments_length: "match_arguments s = Some (g, r) \<Longrightarrow> length r \<le> length s"
  unfolding match_arguments_def
  using lazy_length [of "match_atoms close_tags" "\<lambda>r. r"] match_atoms_length by blast

lemma match_function_length:
  assumes "match_function s = Some (g1, g2, r)"
  shows "length r \<le> length s"
proof -
  have "length (snd p) \<le> length t"
    if "(case match_atoms middle_tags t of None \<Rightarrow> None | Some u \<Rightarrow> match_arguments u) = Some p"
    for t p
  proof -
    from that obtain u where u: "match_atoms middle_tags t = Some u" "match_arguments u = Some p"
      by (auto split: option.splits)
    from u(2) have "length (snd p) \<le> length u"
      using match_arguments_length [of u "fst p" "snd p"] by simp
    with match_atoms_length [OF u(1)] show ?thesis by simp
  qed
  from lazy_length [of _ snd, OF this] assms show ?thesis
    unfolding match_function_def by fastforce
qed

lemma match_atoms_Lit_length:
  assumes "match_atoms (Lit l # as) s = Some r"
  shows "length r + length l \<le> length s"
proof -
  from assms obtain u where u: "strip_prefix l s = Some u" "match_atoms as u = Some r"
    by (auto split: option.splits)
  from strip_prefix_length [OF u(1)] match_atoms_length [OF u(2)] show ?thesis by simp
qed

lemma match_here_length:
  assumes "match_here s = Some (g1, g2, r)"
  shows "length r < length s"
proof -
  from assms obtain t where t: "match_atoms open_tags s = Some t" "match_function t = Some (g1, g2, r)"
    by (auto simp: match_here_def split: option.splits)
  from t(1) have "length t + length ''<tool_call>'' \<le> length s"
    unfolding open_tags_def by (rule match_atoms_Lit_length)
  with match_function_length [OF t(2)] show ?thesis by simp
qed

text \<open>
  The loop \<^verbatim>\<open>while ((match = regex.exec(text)) !== null)\<close>: \<^verbatim>\<open>exec\<close> finds the
  leftmost match at or after \<^verbatim>\<open>lastIndex\<close> and moves \<^verbatim>\<open>lastIndex\<close> behind it.
  The function lists the two groups of every match.
\<close>

function regex_matches :: "string \<Rightarrow> (string \<times> string) list" where
  "regex_matches [] = []"
| "regex_matches (c # cs) =
     (case match_here (c # cs) of
        Some (g1, g2, rest) \<Rightarrow> (g1, g2) # regex_matches rest
      | None \<Rightarrow> regex_matches cs)"
  by pat_completeness auto
termination
  by (relation "measure length") (auto dest: match_here_length)


text \<open>
  An entry of the list \<^verbatim>\<open>extractToolCalls\<close> returns:
  \<^verbatim>\<open>{ function: { name, arguments } }\<close>.
\<close>

record tool_call =
  fn_name :: string
  fn_arguments :: json

text \<open>
  The body of the loop. \<^verbatim>\<open>args\<close> starts as the empty object and is replaced by
  \<^verbatim>\<open>JSON.parse(argsText)\<close> when the trimmed text is not empty and parses; the inner
  \<^verbatim>\<open>catch\<close> only logs. Nothing else in the body throws, so every match pushes one
  entry.
\<close>

definition parse_arguments :: "env \<Rightarrow> string \<Rightarrow> json" where
  "parse_arguments e g2 =
     (let argsText = trim g2 in
      if argsText = [] then JObj []
      else (case JSON_parse e argsText of Some v \<Rightarrow> v | None \<Rightarrow> JObj []))"

definition toolCall_of_match :: "env \<Rightarrow> string \<times> string \<Rightarrow> tool_call" where
  "toolCall_of_match e m =
     \<lparr>fn_name = trim (fst m), fn_arguments = parse_arguments e (snd m)\<rparr>"

definition extractToolCalls :: "env \<Rightarrow> string \<Rightarrow> tool_call list" where
  "extractToolCalls e text = map (toolCall_of_match e) (regex_matches text)"

section \<open>Running the tool calls of a turn (src/agent.js)\<close>

text \<open>
  The first \<^verbatim>\<open>try\<close> of the loop of \<^verbatim>\<open>executeToolCallsAndContinue\<close>: 
  \<^verbatim>\<open>null\<close> gives the empty object, an object that is not an array is used as it is,
  a string is parsed unless it is blank or \<^verbatim>\<open>{}\<close>, any other value gives the empty
  object, and so does a string that \<^verbatim>\<open>JSON.parse\<close> refuses (the \<^verbatim>\<open>catch\<close>).
\<close>

fun normalize_arguments :: "env \<Rightarrow> json \<Rightarrow> json" where
  "normalize_arguments e JNull = JObj []"
| "normalize_arguments e (JObj ps) = JObj ps"
| "normalize_arguments e (JStr rawArgs) =
     (if trim rawArgs = [] \<or> trim rawArgs = ''{}'' then JObj []
      else (case JSON_parse e rawArgs of Some v \<Rightarrow> v | None \<Rightarrow> JObj []))"
| "normalize_arguments e v = JObj []"

text \<open>
  An entry of the results of a turn: \<^verbatim>\<open>{ tool, result }\<close> or \<^verbatim>\<open>{ tool, error }\<close>.
\<close>

record tool_outcome =
  res_tool :: string
  res_result :: "string option"
  res_error :: "string option"

text \<open>
  The second \<^verbatim>\<open>try\<close>: the text of a result. A string is its own text, an execution
  gives its output (with the error output when there is some), any other value goes
  through \<^verbatim>\<open>JSON.stringify\<close>. Reading \<^verbatim>\<open>result.stdout\<close> of \<^verbatim>\<open>null\<close> throws inside
  the \<^verbatim>\<open>try\<close>. The values the file-system primitives return are arrays and objects
  without a property \<^verbatim>\<open>stdout\<close>.
\<close>

fun result_text :: "env \<Rightarrow> tool_result \<Rightarrow> thrown + string" where
  "result_text e (Text s) = Inr s"
| "result_text e (Execution x) =
     Inr (stdout x @ (if stderr x \<noteq> [] then ''\<newline>Stderr: '' @ stderr x else []))"
| "result_text e (Structured JNull) = Inl (TypeError (type_error_text e))"
| "result_text e (Structured (JStr s)) = Inr s"
| "result_text e (Structured v) = Inr (JSON_stringify e v)"

text \<open>
  \<^verbatim>\<open>executeToolCallsAndContinue(toolCalls, onChunk, options)\<close>: the calls run in order,
  the \<open>i\<close>-th as invocation \<open>k + i\<close>; an error of \<^verbatim>\<open>executeTool\<close> or of the formatting
  becomes an entry with \<^verbatim>\<open>error\<close>. The calls of \<^verbatim>\<open>onChunk\<close> (the progress shown to the
  user) are the caller's and are left out.
\<close>

fun executeToolCallsAndContinue ::
  "env \<Rightarrow> nat \<Rightarrow> tool_call list \<Rightarrow> agent \<Rightarrow> tool_outcome list \<times> agent" where
  "executeToolCallsAndContinue e k [] ag = ([], ag)"
| "executeToolCallsAndContinue e k (toolCall # toolCalls) ag =
     (let functionName = fn_name toolCall;
          args = normalize_arguments e (fn_arguments toolCall);
          (r, ag1) = executeTool e k functionName args ag;
          entry =
            (case r of
               Inl x \<Rightarrow>
                 \<lparr>res_tool = functionName, res_result = None, res_error = Some (message_of x)\<rparr>
             | Inr result \<Rightarrow>
                 (case result_text e result of
                    Inl x \<Rightarrow>
                      \<lparr>res_tool = functionName, res_result = None,
                       res_error = Some (message_of x)\<rparr>
                  | Inr resultText \<Rightarrow>
                      \<lparr>res_tool = functionName, res_result = Some resultText,
                       res_error = None\<rparr>));
          (results, ag2) = executeToolCallsAndContinue e (Suc k) toolCalls ag1
      in (entry # results, ag2))"

text \<open>
  \<^verbatim>\<open>buildToolResultPrompt(toolResults)\<close>. \<^verbatim>\<open>if (result.error)\<close> takes an absent and
  an empty message alike; an absent \<^verbatim>\<open>result.result\<close> prints as \<^verbatim>\<open>undefined\<close>.
\<close>

definition result_prompt :: "tool_outcome \<Rightarrow> string" where
  "result_prompt r =
     ''Tool: '' @ res_tool r @ ''\<newline>'' @
     (if or_string (res_error r) [] \<noteq> []
      then ''Error: '' @ or_string (res_error r) [] @ ''\<newline>\<newline>''
      else ''Result:\<newline>'' @ (case res_result r of None \<Rightarrow> ''undefined'' | Some s \<Rightarrow> s)
             @ ''\<newline>\<newline>'')"

definition buildToolResultPrompt :: "tool_outcome list \<Rightarrow> string" where
  "buildToolResultPrompt toolResults =
     ''Tool execution results:\<newline>\<newline>'' @ concat (map result_prompt toolResults) @
     ''Please provide a natural language response to the user based on these results.''"

section \<open>Streaming chat (src/agent.js)\<close>

definition getEnhancedSystemPrompt :: "agent \<Rightarrow> string" where
  \<open>getEnhancedSystemPrompt ag =
     (if \<not> enableTools ag then systemPrompt ag
      else concat
        [systemPrompt ag, ''\<newline>'',
         ''\<newline>'',
         ''You have access to system tools that allow you to interact with the '',
         platform (systemTools ag), '' system using '', shell (systemTools ag), ''.\<newline>'',
         ''\<newline>'',
         ''Available tools:\<newline>'',
         ''1. execute_command(command, cwd?) - Run all shell commands\<newline>'',
         ''2. list_directory(path, detailed?) - List files in a directory\<newline>'',
         ''3. read_file(filepath) - Read file contents\<newline>'',
         ''4. write_file(filepath, content, append?) - Write to files\<newline>'',
         ''5. get_system_info() - Get system information\<newline>'',
         ''6. get_current_directory() - Get current working directory\<newline>'',
         ''\<newline>'',
         ''To use a tool, respond with a special format:\<newline>'',
         ''<tool_call>\<newline>'',
         ''<function>tool_name</function>\<newline>'',
         ''<arguments>{"arg1": "value1", "arg2": "value2"}</arguments>\<newline>'',
         ''</tool_call>\<newline>'',
         ''\<newline>'',
         ''After I execute the tool and show you the results, you can provide a natural language response to the user.\<newline>'',
         ''\<newline>'',
         ''Example:\<newline>'',
         ''User: "What files are in my current directory?"\<newline>'',
         ''You: <tool_call>\<newline>'',
         ''<function>list_directory</function>\<newline>'',
         ''<arguments>{"path": ".", "detailed": true}</arguments>\<newline>'',
         ''</tool_call>\<newline>'',
         ''\<newline>'',
         ''[I will execute the tool and show results]\<newline>'',
         ''\<newline>'',
         ''You: "Here are the files in your current directory: [explain results]"\<newline>'',
         ''\<newline>'',
         ''IMPORTANT: Only use tools when the user explicitly asks for system interaction. Always explain what you're doing.''])\<close>

text \<open>
  The handler of \<^verbatim>\<open>data\<close> events adds the content of every fragment to
  \<^verbatim>\<open>fullResponse\<close> and skips the lines that do not parse.
\<close>

fun line_content :: "line \<Rightarrow> string" where
  "line_content Unparsable = []"
| "line_content (Delta c) = c"

definition accumulate :: "line list \<Rightarrow> string" where
  "accumulate ls = concat (map line_content ls)"

text \<open>
  \<^verbatim>\<open>continueAfterTools(prompt, onChunk, options)\<close>, as request number \<open>n\<close>: the promise
  it returns and the new state. The request carries the plain system prompt.
\<close>

definition follow_up_request :: "agent \<Rightarrow> chat_request" where
  "follow_up_request ag =
     (let messages = \<lparr>role = ''system'', content = systemPrompt ag\<rparr> # conversationHistory ag
      in \<lparr>req_model = model ag, req_messages = messages\<rparr>)"

definition continueAfterTools :: "env \<Rightarrow> nat \<Rightarrow> string \<Rightarrow> agent \<Rightarrow> string promise \<times> agent" where
  "continueAfterTools e n prompt ag =
     (let ag1 = addMessage ''user'' prompt ag
      in case post_chat e n (follow_up_request ag1) of
           RequestFailed m \<Rightarrow> (Rejected (Error (''Continue chat error: '' @ m)), ag1)
         | Stream ls end \<Rightarrow>
             (case end of
                Done c p g \<Rightarrow>
                  (let fullResponse = accumulate ls @ c
                   in (Resolved fullResponse, addMessage ''assistant'' fullResponse ag1))
              | StreamError m \<Rightarrow> (Rejected (Error (''Stream error: '' @ m)), ag1)
              | NoMore \<Rightarrow> (Pending, ag1)))"

text \<open>The value a turn resolves with.\<close>

record chat_result =
  res_message :: string
  res_model :: string
  contextReset :: bool
  toolCalls :: "tool_call list"
  total_tokens :: nat

text \<open>
  \<^verbatim>\<open>streamChat(userMessage, onChunk, options)\<close>. \<open>executeTools\<close> is
  \<^verbatim>\<open>options.executeTools !== false\<close>; the first request is number \<open>n\<close>, the follow-up
  number \<open>n + 1\<close>, and the tool calls of the turn are the invocations from \<open>k\<close> on.
  In the branch with tool calls the value is built after \<^verbatim>\<open>continueAfterTools\<close> has
  resolved, from the variables \<^verbatim>\<open>fullResponse\<close>, \<^verbatim>\<open>toolCalls\<close> and \<^verbatim>\<open>parsed\<close> of the
  handler of the first stream.
\<close>

definition initial_request :: "agent \<Rightarrow> chat_request" where
  "initial_request ag =
     (let systemPromptToUse =
            (if enableTools ag then getEnhancedSystemPrompt ag else systemPrompt ag);
          messages = \<lparr>role = ''system'', content = systemPromptToUse\<rparr> # conversationHistory ag
      in \<lparr>req_model = model ag, req_messages = messages\<rparr>)"

definition streamChat ::
  "env \<Rightarrow> nat \<Rightarrow> nat \<Rightarrow> string \<Rightarrow> bool \<Rightarrow> agent \<Rightarrow> chat_result promise \<times> agent" where
  "streamChat e n k userMessage executeTools ag =
     (let ag1 = addMessage ''user'' userMessage ag
      in case post_chat e n (initial_request ag1) of
           RequestFailed m \<Rightarrow> (Rejected (Error (''Stream chat error: '' @ m)), ag1)
         | Stream ls end \<Rightarrow>
             (case end of
                StreamError m \<Rightarrow> (Rejected (Error (''Stream error: '' @ m)), ag1)
              | NoMore \<Rightarrow> (Pending, ag1)
              | Done c prompt_eval_count eval_count \<Rightarrow>
                  (let fullResponse = accumulate ls @ c;
                       calls = extractToolCalls e fullResponse
                   in if calls \<noteq> [] \<and> enableTools ag1 \<and> executeTools then
                        (let (toolResults, ag2) = executeToolCallsAndContinue e k calls ag1;
                             ag3 = addMessage ''assistant'' fullResponse ag2;
                             followUpPrompt = buildToolResultPrompt toolResults;
                             (p, ag4) = continueAfterTools e (Suc n) followUpPrompt ag3
                         in case p of
                              Resolved text \<Rightarrow>
                                (Resolved
                                   \<lparr>res_message = fullResponse, res_model = model ag4,
                                    contextReset = False, toolCalls = calls,
                                    total_tokens = prompt_eval_count + eval_count\<rparr>, ag4)
                            | Rejected x \<Rightarrow> (Rejected x, ag4)
                            | Pending \<Rightarrow> (Pending, ag4))
                      else
                        (let ag2 = addMessage ''assistant'' fullResponse ag1
                         in (Resolved
                               \<lparr>res_message = fullResponse, res_model = model ag2,
                                contextReset = False, toolCalls = [],
                                total_tokens = prompt_eval_count + eval_count\<rparr>, ag2)))))"

section \<open>Export and import of the history (src/agent.js)\<close>

text \<open>
  \<^verbatim>\<open>exportHistory()\<close> serialises the object
  \<^verbatim>\<open>{ model, systemPrompt, history, timestamp }\<close>; \<open>ts\<close> is
  \<^verbatim>\<open>new Date().toISOString()\<close>.
\<close>

definition message_json :: "message \<Rightarrow> json" where
  "message_json m = JObj [(''role'', JStr (role m)), (''content'', JStr (content m))]"

definition export_document :: "string \<Rightarrow> agent \<Rightarrow> json" where
  "export_document ts ag =
     JObj [(''model'', JStr (model ag)),
           (''systemPrompt'', JStr (systemPrompt ag)),
           (''history'', JArr (map message_json (conversationHistory ag))),
           (''timestamp'', JStr ts)]"

definition exportHistory :: "env \<Rightarrow> string \<Rightarrow> agent \<Rightarrow> string" where
  "exportHistory e ts ag = JSON_stringify e (export_document ts ag)"

text \<open>The values that count as true in \<^verbatim>\<open>x || y\<close>.\<close>

fun truthy :: "json \<Rightarrow> bool" where
  "truthy JNull = False"
| "truthy (JBool b) = b"
| "truthy (JNum n) = (n \<noteq> 0)"
| "truthy (JStr s) = (s \<noteq> [])"
| "truthy (JArr xs) = True"
| "truthy (JObj ps) = True"

text \<open>
  \<^verbatim>\<open>importHistory\<close> assigns whatever the parsed document holds. The fields of
  \<^typ>\<open>agent\<close> are typed, so the assignments are read back into these types: a string
  for the model and the system prompt, a list of objects with exactly a string
  \<^verbatim>\<open>role\<close> and a string \<^verbatim>\<open>content\<close> for the history. \<open>None\<close> is a value of another
  shape, which the source would assign all the same.
\<close>

fun as_message :: "json \<Rightarrow> message option" where
  "as_message (JObj [(k1, JStr r), (k2, JStr c)]) =
     (if k1 = ''role'' \<and> k2 = ''content'' then Some \<lparr>role = r, content = c\<rparr> else None)"
| "as_message v = None"

fun as_history :: "json \<Rightarrow> message list option" where
  "as_history (JArr xs) = those (map as_message xs)"
| "as_history v = None"

text \<open>\<^verbatim>\<open>data.x || this.x\<close> for a string field, and \<^verbatim>\<open>data.history || []\<close>.\<close>

fun string_or :: "json option \<Rightarrow> string \<Rightarrow> string option" where
  "string_or None d = Some d"
| "string_or (Some (JStr s)) d = Some (if s = [] then d else s)"
| "string_or (Some v) d = (if truthy v then None else Some d)"

fun history_or_empty :: "json option \<Rightarrow> message list option" where
  "history_or_empty None = Some []"
| "history_or_empty (Some v) = (if truthy v then as_history v else Some [])"

text \<open>
  The outcome of \<^verbatim>\<open>importHistory(jsonString)\<close>: the error of the \<^verbatim>\<open>catch\<close>, the
  new state (the call returns \<^verbatim>\<open>true\<close>), or \<open>Untyped\<close> when the call returns
  \<^verbatim>\<open>true\<close> with a state that has no value in \<^typ>\<open>agent\<close>. Reading a property of
  \<^verbatim>\<open>null\<close> throws before the first assignment; no later step throws.
\<close>

datatype import_result = ImportFailed thrown | Imported agent | Untyped

definition importHistory :: "env \<Rightarrow> string \<Rightarrow> agent \<Rightarrow> import_result" where
  "importHistory e jsonString ag =
     (case JSON_parse e jsonString of
        None \<Rightarrow>
          ImportFailed
            (Error (''Failed to import history: '' @ syntax_error_text e jsonString))
      | Some data \<Rightarrow>
          (case get_prop e data ''model'' of
             Inl x \<Rightarrow> ImportFailed (Error (''Failed to import history: '' @ message_of x))
           | Inr m \<Rightarrow>
               (case get_prop e data ''systemPrompt'' of
                  Inl x \<Rightarrow>
                    ImportFailed (Error (''Failed to import history: '' @ message_of x))
                | Inr p \<Rightarrow>
                    (case get_prop e data ''history'' of
                       Inl x \<Rightarrow>
                         ImportFailed (Error (''Failed to import history: '' @ message_of x))
                     | Inr h \<Rightarrow>
                         (case (string_or m (model ag), string_or p (systemPrompt ag),
                                history_or_empty h) of
                            (Some m', Some p', Some h') \<Rightarrow>
                              Imported (ag\<lparr>model := m', systemPrompt := p',
                                           conversationHistory := h'\<rparr>)
                          | _ \<Rightarrow> Untyped)))))"


section \<open>Texts with tool-call markers\<close>

text \<open>
  A marker as the system prompt asks for it: the five parts between the fixed tags. A
  text with markers is built from the plain text before each marker and the plain text
  after the last one. A marker is free of closing tags when its three gaps are white
  space, its name does not contain \<^verbatim>\<open></function>\<close> and its arguments do not contain
  \<^verbatim>\<open></arguments>\<close>; a text is plain when it does not contain \<^verbatim>\<open><tool_call>\<close>.
\<close>

record marker =
  m_space1 :: string
  m_name :: string
  m_space2 :: string
  m_arguments :: string
  m_space3 :: string

definition render :: "marker \<Rightarrow> string" where
  "render m =
     ''<tool_call>'' @ m_space1 m @ ''<function>'' @ m_name m @ ''</function>'' @ m_space2 m @
     ''<arguments>'' @ m_arguments m @ ''</arguments>'' @ m_space3 m @ ''</tool_call>''"

fun assemble :: "(string \<times> marker) list \<Rightarrow> string \<Rightarrow> string" where
  "assemble [] tail = tail"
| "assemble ((p, m) # pms) tail = p @ render m @ assemble pms tail"

definition occurs :: "string \<Rightarrow> string \<Rightarrow> bool" where
  "occurs l s = test [Lit l] s"

definition plain :: "string \<Rightarrow> bool" where
  "plain p = (\<not> occurs ''<tool_call>'' p)"

definition tag_free :: "marker \<Rightarrow> bool" where
  "tag_free m =
     (list_all is_space (m_space1 m) \<and> list_all is_space (m_space2 m) \<and>
      list_all is_space (m_space3 m) \<and>
      \<not> occurs ''</function>'' (m_name m) \<and> \<not> occurs ''</arguments>'' (m_arguments m))"


section \<open>Sample values\<close>

text \<open>
  The state of \<^verbatim>\<open>new SystemTools()\<close> on Linux, an agent made by the constructor
  with its defaults, and further down an environment in which every command prints
  \<^verbatim>\<open>ok\<close>, every file-system primitive fails and the server does not answer.
\<close>

definition new_SystemTools :: system_tools where
  "new_SystemTools =
     \<lparr>platform = ''linux'', isWindows = False, shell = ''/bin/bash'', executionHistory = []\<rparr>"

definition new_PrivateAgent :: agent where
  "new_PrivateAgent =
     \<lparr>model = ''llama2'', systemPrompt = ''You are a helpful AI assistant.'',
      maxContextTokens = 4096, conversationHistory = [], enableTools = True,
      systemTools = new_SystemTools, toolCallHistory = []\<rparr>"

text \<open>
  An agent after one message and the text \<^verbatim>\<open>JSON.stringify\<close> gives for its export
  document.
\<close>

definition talked_agent :: agent where
  "talked_agent = new_PrivateAgent\<lparr>conversationHistory := [\<lparr>role = ''user'', content = ''hi''\<rparr>]\<rparr>"

definition talked_blob :: string where
  \<open>talked_blob = concat
     [''{\<newline>'',
      ''  "model": "llama2",\<newline>'',
      ''  "systemPrompt": "You are a helpful AI assistant.",\<newline>'',
      ''  "history": [\<newline>'',
      ''    {\<newline>'',
      ''      "role": "user",\<newline>'',
      ''      "content": "hi"\<newline>'',
      ''    }\<newline>'',
      ''  ],\<newline>'',
      ''  "timestamp": "2024-01-01T00:00:00.000Z"\<newline>'',
      ''}'']\<close>

text \<open>
  The JSON functions of the sample environment. They are those of the library at the
  texts and values the examples below hand to them; at any other argument
  \<open>sample_parse\<close> refuses and \<open>sample_stringify\<close> prints \<^verbatim>\<open>null\<close>.
\<close>

definition sample_parse :: "string \<Rightarrow> json option" where
  \<open>sample_parse s =
     (if s = ''{}'' then Some (JObj [])
      else if s = ''{"path": ".", "detailed": true}''
        then Some (JObj [(''path'', JStr ''.''), (''detailed'', JBool True)])
      else if s = ''{"filepath": "notes.txt"}''
        then Some (JObj [(''filepath'', JStr ''notes.txt'')])
      else if s = talked_blob
        then Some (export_document ''2024-01-01T00:00:00.000Z'' talked_agent)
      else None)\<close>

definition sample_stringify :: "json \<Rightarrow> string" where
  "sample_stringify v =
     (if v = export_document ''2024-01-01T00:00:00.000Z'' talked_agent then talked_blob
      else if v = JObj [] then ''{}''
      else ''null'')"

definition sample_env :: env where
  "sample_env =
     \<lparr>process_cwd = ''/home/user'',
      type_error_text = ''Cannot read properties of undefined'',
      syntax_error_text = (\<lambda>s. ''Unexpected token''),
      JSON_parse = sample_parse,
      JSON_stringify = sample_stringify,
      run_exec = (\<lambda>k cmd opts. ExecResolved ''ok'' []),
      exec_elapsed = (\<lambda>k. 5),
      exec_timestamp = (\<lambda>k. ''2024-01-01T00:00:00.000Z''),
      run_primitive = (\<lambda>k name args. Inl (Error ''EACCES: permission denied'')),
      tool_elapsed = (\<lambda>k. 7),
      tool_timestamp = (\<lambda>k. ''2024-01-01T00:00:00.007Z''),
      post_chat = (\<lambda>k req. RequestFailed ''connect ECONNREFUSED'')\<rparr>"

text \<open>
  The rejection \<^verbatim>\<open>exec\<close> gives when the timeout of its options expires: the child is
  killed, \<^verbatim>\<open>code\<close> is \<^verbatim>\<open>null\<close> and the message names the command.
\<close>

definition timeout_rejection :: exec_error where
  "timeout_rejection =
     \<lparr>err_stdout = Some [], err_stderr = Some [], err_code = NoCode,
      err_message = ''Command failed: sleep 100\<newline>''\<rparr>"

definition slow_env :: env where
  "slow_env = sample_env\<lparr>run_exec := (\<lambda>k cmd opts. ExecRejected timeout_rejection)\<rparr>"

text \<open>
  A server whose first answer asks for the working directory and reports the counters
  10 and 5, and whose follow-up answer reports 100 and 50; and a server whose first
  answer holds a marker with arguments that are not JSON.
\<close>

definition tool_reply :: string where
  "tool_reply =
     ''<tool_call>\<newline><function>get_current_directory</function>\<newline><arguments>{}</arguments>\<newline></tool_call>''"

definition two_stage_server :: "nat \<Rightarrow> chat_request \<Rightarrow> response" where
  "two_stage_server n req =
     (if n = 0 then Stream [Delta ''Let me check. '', Unparsable, Delta tool_reply] (Done [] 10 5)
      else Stream [Delta ''You are in /home/user.''] (Done [] 100 50))"

definition two_stage_env :: env where
  "two_stage_env = sample_env\<lparr>post_chat := two_stage_server\<rparr>"

definition bad_reply :: string where
  "bad_reply =
     ''<tool_call><function>read_file</function><arguments>{filepath: notes.txt}</arguments></tool_call>''"

definition bad_arguments_server :: "nat \<Rightarrow> chat_request \<Rightarrow> response" where
  "bad_arguments_server n req =
     (if n = 0 then Stream [Delta bad_reply] (Done [] 10 5)
      else Stream [Delta ''I could not read the file.''] (Done [] 20 7))"

definition bad_arguments_env :: env where
  "bad_arguments_env = sample_env\<lparr>post_chat := bad_arguments_server\<rparr>"

text \<open>
  Two markers between plain text, and one marker whose arguments are a JSON object with
  a string that contains tags.
\<close>

definition sample_markers :: "(string \<times> marker) list" where
  \<open>sample_markers =
     [(''I will look. '',
       \<lparr>m_space1 = ''\<newline>'', m_name = ''list_directory'', m_space2 = ''\<newline>'',
        m_arguments = ''{"path": ".", "detailed": true}'', m_space3 = ''\<newline>''\<rparr>),
      (''\<newline>Then the <b>notes</b>: '',
       \<lparr>m_space1 = [], m_name = '' read_file '', m_space2 = '' '',
        m_arguments = ''{"filepath": "notes.txt"}'', m_space3 = []\<rparr>)]\<close>

definition nested_marker :: marker where
  \<open>nested_marker =
     \<lparr>m_space1 = [], m_name = ''write_file'', m_space2 = [],
      m_arguments =
        ''{"content":"</arguments></tool_call><tool_call><function>g</function><arguments>{}"}'',
      m_space3 = []\<rparr>\<close>

text \<open>An agent with a budget of one token, and two classes of events of a child.\<close>

fun is_close :: "child_event \<Rightarrow> bool" where
  "is_close (Close c) = True"
| "is_close ev = False"

fun is_data :: "child_event \<Rightarrow> bool" where
  "is_data (StdoutData t) = True"
| "is_data (StderrData t) = True"
| "is_data ev = False"

definition tiny_agent :: agent where
  "tiny_agent = new_PrivateAgent\<lparr>maxContextTokens := 1\<rparr>"

section \<open>Properties of the conversation state\<close>

lemma slice_last_snoc_last: "slice_last (Suc n) (xs @ [x]) \<noteq> [] \<and> last (slice_last (Suc n) (xs @ [x])) = x"
  by (simp add: slice_last_def)

text \<open>
  C10. After \<^verbatim>\<open>addMessage(role, content)\<close> the history is not empty and its last
  element is the message just added, whether or not the call reset the context.
\<close>

theorem addMessage_last:
  "conversationHistory (addMessage r c s) \<noteq> [] \<and>
   last (conversationHistory (addMessage r c s)) = \<lparr>role = r, content = c\<rparr>"
proof -
  have "slice_last 10 (conversationHistory s @ [\<lparr>role = r, content = c\<rparr>]) \<noteq> [] \<and>
        last (slice_last 10 (conversationHistory s @ [\<lparr>role = r, content = c\<rparr>]))
          = \<lparr>role = r, content = c\<rparr>"
    using slice_last_snoc_last [of 9 "conversationHistory s" "\<lparr>role = r, content = c\<rparr>"]
    by simp
  then show ?thesis
    by (simp add: addMessage_def checkAndResetContext_def push_message_def Let_def)
qed

lemma length_slice_last: "length (slice_last n xs) = min n (length xs)"
  by (simp add: slice_last_def)

lemma suffix_slice_last: "suffix (slice_last n xs) xs"
  by (simp add: slice_last_def suffix_drop)

text \<open>
  C1, as amended. When the content accumulated in the history, the new message
  included, exceeds \<open>4 * maxContextTokens\<close> characters, the check reports a reset and
  the history becomes every system-role message of the history before the reset, then
  the reset notice, then the last 10 messages of that history, or all of them when it
  has fewer than 10.
\<close>

theorem addMessage_reset:
  assumes "4 * maxContextTokens s < int (totalChars (conversationHistory (push_message r c s)))"
  shows "fst (checkAndResetContext (push_message r c s)) \<and>
         conversationHistory (addMessage r c s) =
           systemMessages (conversationHistory (push_message r c s)) @ [reset_notice] @
           slice_last 10 (conversationHistory (push_message r c s)) \<and>
         suffix (slice_last 10 (conversationHistory (push_message r c s)))
                (conversationHistory (push_message r c s)) \<and>
         length (slice_last 10 (conversationHistory (push_message r c s))) =
           min 10 (length (conversationHistory (push_message r c s)))"
proof -
  have "maxContextTokens (push_message r c s) = maxContextTokens s"
    by (simp add: push_message_def)
  with assms show ?thesis
    by (simp add: addMessage_def checkAndResetContext_def Let_def length_slice_last
        suffix_slice_last)
qed

text \<open>
  C1, witness: a budget of one token and a first message of five characters.
\<close>

theorem addMessage_reset_witness:
  "4 * maxContextTokens tiny_agent
     < int (totalChars (conversationHistory (push_message ''user'' ''hello'' tiny_agent))) \<and>
   conversationHistory (addMessage ''user'' ''hello'' tiny_agent) =
     systemMessages (conversationHistory (push_message ''user'' ''hello'' tiny_agent)) @ [reset_notice] @
     slice_last 10 (conversationHistory (push_message ''user'' ''hello'' tiny_agent))"
proof -
  have h: "4 * maxContextTokens tiny_agent
     < int (totalChars (conversationHistory (push_message ''user'' ''hello'' tiny_agent)))"
    by (simp add: tiny_agent_def new_PrivateAgent_def push_message_def totalChars_def)
  from addMessage_reset [OF h] h show ?thesis by simp
qed

text \<open>
  C1, counterexample to the statement of the specification: the call crosses the threshold and the
  reset keeps one message after the notice, not 10.
\<close>

theorem reset_with_one_message:
  "fst (checkAndResetContext (push_message ''user'' ''hello'' tiny_agent)) \<and>
   conversationHistory (addMessage ''user'' ''hello'' tiny_agent) =
     [reset_notice, \<lparr>role = ''user'', content = ''hello''\<rparr>] \<and>
   length (slice_last 10 (conversationHistory (push_message ''user'' ''hello'' tiny_agent))) \<noteq> 10"
  by (simp add: addMessage_def checkAndResetContext_def push_message_def tiny_agent_def
      new_PrivateAgent_def totalChars_def systemMessages_def slice_last_def Let_def)

section \<open>Properties of the command executor and of the dispatch\<close>

lemma isDangerous_simps:
  "isDangerousCommand s = list_ex (\<lambda>pattern. test pattern (map lower_char s)) dangerousPatterns"
  by (simp add: isDangerousCommand_def toLowerCase_def)

text \<open>
  C4. A command that \<^verbatim>\<open>isDangerousCommand\<close> accepts makes both
  \<^verbatim>\<open>executeCommand\<close> and \<^verbatim>\<open>executeCommandStream\<close> throw the security error.
  The result mentions neither the environment nor the events: no subprocess was asked
  for, no timer was started, and the state of the executor is unchanged.
\<close>

theorem dangerous_command_denied:
  assumes "isDangerousCommand cmd"
  shows "executeCommand e k cmd options st = (Inl blocked, st) \<and>
         executeCommandStream e k cmd cwd_opt evs st = Inl blocked"
  using assms by (simp add: executeCommand_def executeCommandStream_def Let_def)

lemma rm_rf_dangerous: "isDangerousCommand ''sudo RM  -rf /''"
  by (simp add: isDangerous_simps lower_char_def dangerousPatterns_def is_space_def)

text \<open>
  C4, witness: a recursive delete of the root, in mixed case.
\<close>

theorem dangerous_command_denied_witness:
  "isDangerousCommand ''sudo RM  -rf /'' \<and>
   executeCommand sample_env 0 ''sudo RM  -rf /'' no_options new_SystemTools
     = (Inl (Error ''Command blocked for security reasons''), new_SystemTools) \<and>
   executeCommandStream sample_env 0 ''sudo RM  -rf /'' None [TimerFired] new_SystemTools
     = Inl (Error ''Command blocked for security reasons'')"
  using dangerous_command_denied [OF rm_rf_dangerous, of sample_env 0 no_options new_SystemTools None "[TimerFired]"]
    rm_rf_dangerous
  by (simp add: blocked_def)

lemma settle_settled: "p \<noteq> Pending \<Longrightarrow> settle p q = p"
  by (cases p) simp_all

lemma stream_event_settled:
  "outcome r \<noteq> Pending \<Longrightarrow> outcome (stream_event cmd dir stamp r ev) = outcome r"
  by (cases ev) (simp_all add: settle_settled Let_def)

lemma stream_event_kills: "kills r \<le> kills (stream_event cmd dir stamp r ev)"
  by (cases ev) (simp_all add: Let_def)

lemma stream_fold_settled:
  "outcome r \<noteq> Pending \<Longrightarrow> outcome (foldl (stream_event cmd dir stamp) r evs) = outcome r"
  by (induction evs arbitrary: r) (simp_all add: stream_event_settled)

lemma stream_fold_kills: "kills r \<le> kills (foldl (stream_event cmd dir stamp) r evs)"
proof (induction evs arbitrary: r)
  case Nil
  then show ?case by simp
next
  case (Cons ev evs)
  have "kills r \<le> kills (stream_event cmd dir stamp r ev)"
    by (rule stream_event_kills)
  also have "\<dots> \<le> kills (foldl (stream_event cmd dir stamp) (stream_event cmd dir stamp r ev) evs)"
    by (rule Cons.IH)
  finally show ?case by simp
qed

lemma stream_fold_data_pending:
  "list_all is_data evs \<Longrightarrow> outcome r = Pending \<Longrightarrow>
   outcome (foldl (stream_event cmd dir stamp) r evs) = Pending"
proof (induction evs arbitrary: r)
  case Nil
  then show ?case by simp
next
  case (Cons ev evs)
  from Cons.prems have "outcome (stream_event cmd dir stamp r ev) = Pending"
    by (cases ev) simp_all
  with Cons show ?case by simp
qed

lemma stream_fold_history:
  "\<exists>new. executionHistory (tools (foldl (stream_event cmd dir stamp) r evs))
            = executionHistory (tools r) @ new \<and>
         length new = length (filter is_close evs)"
proof (induction evs arbitrary: r)
  case Nil
  then show ?case by simp
next
  case (Cons ev evs)
  obtain new where new:
    "executionHistory (tools (foldl (stream_event cmd dir stamp) (stream_event cmd dir stamp r ev) evs))
       = executionHistory (tools (stream_event cmd dir stamp r ev)) @ new"
    "length new = length (filter is_close evs)"
    using Cons.IH by blast
  show ?case
  proof (cases ev)
    case (Close code)
    then show ?thesis using new by (simp add: Let_def)
  qed (use new in simp_all)
qed

lemma stream_timeout_fires:
  assumes "\<not> isDangerousCommand cmd" and "list_all is_data pre"
  shows "\<exists>r. executeCommandStream e k cmd cwd_opt (pre @ TimerFired # post) st = Inr r \<and>
             outcome r = Rejected (Error ''Command timeout'') \<and> 1 \<le> kills r"
proof -
  define dir where "dir = (case cwd_opt of None \<Rightarrow> JStr (process_cwd e) | Some d \<Rightarrow> d)"
  define step where "step = stream_event cmd dir (exec_timestamp e k)"
  define r1 where "r1 = foldl step (stream_start st) pre"
  define r2 where "r2 = step r1 TimerFired"
  have p1: "outcome r1 = Pending"
    unfolding r1_def step_def using assms(2)
    by (rule stream_fold_data_pending) (simp add: stream_start_def)
  have o2: "outcome r2 = Rejected (Error ''Command timeout'')" and k2: "1 \<le> kills r2"
    using p1 by (simp_all add: r2_def step_def)
  have "outcome (foldl step r2 post) = outcome r2"
    unfolding step_def by (rule stream_fold_settled) (use o2 in \<open>simp add: step_def\<close>)
  moreover have "kills r2 \<le> kills (foldl step r2 post)"
    unfolding step_def by (rule stream_fold_kills)
  moreover have "executeCommandStream e k cmd cwd_opt (pre @ TimerFired # post) st
                   = Inr (foldl step r2 post)"
    using assms(1) by (simp add: executeCommandStream_def Let_def dir_def step_def r2_def r1_def)
  ultimately show ?thesis using o2 k2 by simp
qed

lemma executeCommand_records:
  assumes "\<not> isDangerousCommand cmd"
  shows "\<exists>x. executeCommand e k cmd options st
               = (Inr x, st\<lparr>executionHistory := executionHistory st @ [x]\<rparr>)"
  using assms by (simp add: executeCommand_def Let_def)

lemma executeCommandStream_records:
  assumes "\<not> isDangerousCommand cmd"
  shows "\<exists>r new. executeCommandStream e k cmd cwd_opt evs st = Inr r \<and>
           executionHistory (tools r) = executionHistory st @ new \<and>
           length new = length (filter is_close evs)"
proof -
  define dir where "dir = (case cwd_opt of None \<Rightarrow> JStr (process_cwd e) | Some d \<Rightarrow> d)"
  obtain new where
    "executionHistory (tools (foldl (stream_event cmd dir (exec_timestamp e k)) (stream_start st) evs))
       = executionHistory (tools (stream_start st)) @ new"
    "length new = length (filter is_close evs)"
    using stream_fold_history by blast
  then show ?thesis
    using assms by (simp add: executeCommandStream_def Let_def dir_def stream_start_def)
qed

lemma executeTool_command_records:
  assumes "\<not> isDangerousCommand cmd"
  shows "\<exists>x. executeTool e k ''execute_command'' (JObj [(''command'', JStr cmd)]) ag =
           (Inr (Execution x),
            ag\<lparr>systemTools := (systemTools ag)\<lparr>executionHistory :=
                                  executionHistory (systemTools ag) @ [x]\<rparr>,
               toolCallHistory := toolCallHistory ag @
                 [success_record e k ''execute_command'' (JObj [(''command'', JStr cmd)]) (Execution x)]\<rparr>)"
proof -
  obtain x where "executeCommand e k cmd \<lparr>timeout = None, cwd_option = None\<rparr> (systemTools ag)
     = (Inr x, (systemTools ag)\<lparr>executionHistory := executionHistory (systemTools ag) @ [x]\<rparr>)"
    using executeCommand_records [OF assms] by blast
  then show ?thesis
    by (simp add: executeTool_def dispatch_def)
qed

text \<open>
  C8, as amended. A denylisted command is refused before anything is recorded. Every
  other invocation of \<^verbatim>\<open>executeCommand\<close> appends exactly one record, whether the
  command succeeded or failed; \<^verbatim>\<open>executeCommandStream\<close> appends one record for each
  \<^verbatim>\<open>close\<close> event of the child. The history of the executor is a field of
  \<^verbatim>\<open>SystemTools\<close>; \<^verbatim>\<open>executeTool\<close> keeps its own \<^verbatim>\<open>toolCallHistory\<close>, and a
  command run through it adds one record to each.
\<close>

theorem executor_history:
  "(isDangerousCommand cmd \<longrightarrow>
      executeCommand e k cmd options st = (Inl blocked, st) \<and>
      executeCommandStream e k cmd cwd_opt evs st = Inl blocked) \<and>
   (\<not> isDangerousCommand cmd \<longrightarrow>
      (\<exists>x. executeCommand e k cmd options st
               = (Inr x, st\<lparr>executionHistory := executionHistory st @ [x]\<rparr>)) \<and>
      (\<exists>r new. executeCommandStream e k cmd cwd_opt evs st = Inr r \<and>
           executionHistory (tools r) = executionHistory st @ new \<and>
           length new = length (filter is_close evs)) \<and>
      (\<exists>x. executeTool e k ''execute_command'' (JObj [(''command'', JStr cmd)]) ag =
           (Inr (Execution x),
            ag\<lparr>systemTools := (systemTools ag)\<lparr>executionHistory :=
                                  executionHistory (systemTools ag) @ [x]\<rparr>,
               toolCallHistory := toolCallHistory ag @
                 [success_record e k ''execute_command'' (JObj [(''command'', JStr cmd)]) (Execution x)]\<rparr>)))"
proof (intro conjI impI)
  assume d: "isDangerousCommand cmd"
  then show "executeCommand e k cmd options st = (Inl blocked, st)"
    by (simp add: executeCommand_def Let_def)
  from d show "executeCommandStream e k cmd cwd_opt evs st = Inl blocked"
    by (simp add: executeCommandStream_def Let_def)
next
  assume n: "\<not> isDangerousCommand cmd"
  then show "\<exists>x. executeCommand e k cmd options st
               = (Inr x, st\<lparr>executionHistory := executionHistory st @ [x]\<rparr>)"
    by (rule executeCommand_records)
  from n show "\<exists>r new. executeCommandStream e k cmd cwd_opt evs st = Inr r \<and>
           executionHistory (tools r) = executionHistory st @ new \<and>
           length new = length (filter is_close evs)"
    by (rule executeCommandStream_records)
  from n show "\<exists>x. executeTool e k ''execute_command'' (JObj [(''command'', JStr cmd)]) ag =
           (Inr (Execution x),
            ag\<lparr>systemTools := (systemTools ag)\<lparr>executionHistory :=
                                  executionHistory (systemTools ag) @ [x]\<rparr>,
               toolCallHistory := toolCallHistory ag @
                 [success_record e k ''execute_command'' (JObj [(''command'', JStr cmd)]) (Execution x)]\<rparr>)"
    by (rule executeTool_command_records)
qed

lemma reboot_dangerous: "isDangerousCommand ''reboot''"
  by (simp add: isDangerous_simps lower_char_def dangerousPatterns_def is_space_def)

lemma ls_harmless: "\<not> isDangerousCommand ''ls''"
  by (simp add: isDangerous_simps lower_char_def dangerousPatterns_def is_space_def)

lemma sleep_harmless: "\<not> isDangerousCommand ''sleep 100''"
  by (simp add: isDangerous_simps lower_char_def dangerousPatterns_def is_space_def)

text \<open>
  C8, counterexample to the statement of the specification: the invocation fails and the history of
  the executor stays empty.
\<close>

theorem denied_command_not_recorded:
  "executeCommand sample_env 0 ''reboot'' no_options new_SystemTools
     = (Inl (Error ''Command blocked for security reasons''), new_SystemTools) \<and>
   executionHistory (snd (executeCommand sample_env 0 ''reboot'' no_options new_SystemTools)) = []"
  using reboot_dangerous
  by (simp add: executeCommand_def Let_def blocked_def new_SystemTools_def)

text \<open>
  C8, witness.
\<close>

theorem executor_history_witness:
  "isDangerousCommand ''reboot'' \<and> \<not> isDangerousCommand ''ls'' \<and>
   executeCommand sample_env 0 ''reboot'' no_options new_SystemTools = (Inl blocked, new_SystemTools) \<and>
   (\<exists>x. executeCommand sample_env 0 ''ls'' no_options new_SystemTools
               = (Inr x, new_SystemTools\<lparr>executionHistory := executionHistory new_SystemTools @ [x]\<rparr>)) \<and>
   (\<exists>r new. executeCommandStream sample_env 0 ''ls'' None [StdoutData ''a'', Close (Code 0)] new_SystemTools = Inr r \<and>
           executionHistory (tools r) = executionHistory new_SystemTools @ new \<and>
           length new = length (filter is_close [StdoutData ''a'', Close (Code 0)]))"
  using executor_history [of "''reboot''" sample_env 0 no_options new_SystemTools None "[]" new_PrivateAgent]
    executor_history [of "''ls''" sample_env 0 no_options new_SystemTools None "[StdoutData ''a'', Close (Code 0)]" new_PrivateAgent]
    reboot_dangerous ls_harmless
  by simp

text \<open>
  C5, counterexample to the statement of the specification: \<^verbatim>\<open>exec\<close> kills the command when the
  timeout expires and rejects; \<^verbatim>\<open>executeCommand\<close> catches the rejection and returns a
  record, so the call does not fail.
\<close>

theorem buffered_timeout_returns:
  "\<not> isDangerousCommand ''sleep 100'' \<and>
   executeCommand slow_env 0 ''sleep 100'' no_options new_SystemTools =
     (Inr \<lparr>command = ''sleep 100'', stdout = [], stderr = ''Command failed: sleep 100\<newline>'',
           exitCode = Code 1, executionTime = Some 5,
           timestamp = ''2024-01-01T00:00:00.000Z'', cwd = JStr ''/home/user'',
           error = Some ''Command failed: sleep 100\<newline>''\<rparr>,
      new_SystemTools\<lparr>executionHistory :=
        [\<lparr>command = ''sleep 100'', stdout = [], stderr = ''Command failed: sleep 100\<newline>'',
           exitCode = Code 1, executionTime = Some 5,
           timestamp = ''2024-01-01T00:00:00.000Z'', cwd = JStr ''/home/user'',
           error = Some ''Command failed: sleep 100\<newline>''\<rparr>]\<rparr>)"
  using sleep_harmless
  by (simp add: executeCommand_def Let_def slow_env_def sample_env_def no_options_def
      new_SystemTools_def timeout_rejection_def)

text \<open>
  C5, as amended. In buffered mode \<^verbatim>\<open>exec\<close> is given the timeout (30000 ms by
  default) and terminates the command itself; its rejection does not make the call fail:
  the call returns, and records, an execution that carries the message of the error.
  In streamed mode, when the timer fires while the child has only delivered output, the
  child is killed and the call fails with \<^verbatim>\<open>Command timeout\<close>.
\<close>

theorem timeout_behaviour:
  assumes "\<not> isDangerousCommand cmd"
  shows "(run_exec e k cmd
            \<lparr>opt_timeout = 30000, opt_cwd = JStr (process_cwd e), opt_shell = shell st,
             opt_maxBuffer = 10485760\<rparr> = ExecRejected x \<longrightarrow>
          (\<exists>rec. executeCommand e k cmd no_options st
                   = (Inr rec, st\<lparr>executionHistory := executionHistory st @ [rec]\<rparr>) \<and>
                 error rec = Some (err_message x) \<and> exitCode rec = or_code (err_code x) \<and>
                 stdout rec = or_string (err_stdout x) [])) \<and>
         (list_all is_data pre \<longrightarrow>
          (\<exists>r. executeCommandStream e k cmd cwd_opt (pre @ TimerFired # post) st = Inr r \<and>
               outcome r = Rejected (Error ''Command timeout'') \<and> 1 \<le> kills r))"
proof (intro conjI impI)
  assume "run_exec e k cmd
            \<lparr>opt_timeout = 30000, opt_cwd = JStr (process_cwd e), opt_shell = shell st,
             opt_maxBuffer = 10485760\<rparr> = ExecRejected x"
  with assms show "\<exists>rec. executeCommand e k cmd no_options st
                   = (Inr rec, st\<lparr>executionHistory := executionHistory st @ [rec]\<rparr>) \<and>
                 error rec = Some (err_message x) \<and> exitCode rec = or_code (err_code x) \<and>
                 stdout rec = or_string (err_stdout x) []"
    by (simp add: executeCommand_def Let_def no_options_def)
next
  assume "list_all is_data pre"
  with assms show "\<exists>r. executeCommandStream e k cmd cwd_opt (pre @ TimerFired # post) st = Inr r \<and>
               outcome r = Rejected (Error ''Command timeout'') \<and> 1 \<le> kills r"
    by (rule stream_timeout_fires)
qed

text \<open>
  C5, witness.
\<close>

theorem timeout_behaviour_witness:
  "\<not> isDangerousCommand ''sleep 100'' \<and>
   run_exec slow_env 0 ''sleep 100''
      \<lparr>opt_timeout = 30000, opt_cwd = JStr (process_cwd slow_env),
       opt_shell = shell new_SystemTools, opt_maxBuffer = 10485760\<rparr>
     = ExecRejected timeout_rejection \<and>
   list_all is_data [StdoutData ''tick''] \<and>
   (\<exists>rec. executeCommand slow_env 0 ''sleep 100'' no_options new_SystemTools
            = (Inr rec, new_SystemTools\<lparr>executionHistory :=
                          executionHistory new_SystemTools @ [rec]\<rparr>) \<and>
          error rec = Some (err_message timeout_rejection)) \<and>
   (\<exists>r. executeCommandStream slow_env 0 ''sleep 100'' None
           ([StdoutData ''tick''] @ TimerFired # [StdoutData ''late'', Close NoCode])
           new_SystemTools = Inr r \<and>
        outcome r = Rejected (Error ''Command timeout'') \<and> 1 \<le> kills r)"
proof -
  have a: "run_exec slow_env 0 ''sleep 100''
      \<lparr>opt_timeout = 30000, opt_cwd = JStr (process_cwd slow_env),
       opt_shell = shell new_SystemTools, opt_maxBuffer = 10485760\<rparr>
     = ExecRejected timeout_rejection"
    by (simp add: slow_env_def)
  have b: "list_all is_data [StdoutData ''tick'']"
    by simp
  from timeout_behaviour [OF sleep_harmless, of slow_env 0 new_SystemTools timeout_rejection
      "[StdoutData ''tick'']" None "[StdoutData ''late'', Close NoCode]"] a b sleep_harmless
  show ?thesis by blast
qed

text \<open>
  In streamed mode the handlers of the output stay registered after the kill: output
  that still arrives is appended to the buffers and is part of the record made at
  \<^verbatim>\<open>close\<close>, while the promise stays rejected.
\<close>

lemma stream_output_after_kill:
  "executeCommandStream sample_env 0 ''sleep 100'' None
     [StdoutData ''tick'', TimerFired, StdoutData ''late'', Close NoCode] new_SystemTools =
   Inr \<lparr>out_buffer = ''ticklate'', err_buffer = [],
        delivered = [(''stdout'', ''tick''), (''stdout'', ''late'')], kills = 1,
        outcome = Rejected (Error ''Command timeout''),
        tools = new_SystemTools\<lparr>executionHistory :=
          [\<lparr>command = ''sleep 100'', stdout = ''ticklate'', stderr = [], exitCode = NoCode,
            executionTime = None, timestamp = ''2024-01-01T00:00:00.000Z'',
            cwd = JStr ''/home/user'', error = None\<rparr>]\<rparr>\<rparr>"
  using sleep_harmless
  by (simp add: executeCommandStream_def stream_start_def sample_env_def new_SystemTools_def
      Let_def)

text \<open>
  C9. An unknown tool name fails with \<^verbatim>\<open>Unknown tool: name\<close>. When the primitive
  chosen by the \<^verbatim>\<open>switch\<close> returns, a record with \<^verbatim>\<open>success: true\<close> is appended
  and the result returned. When it throws, a record with \<^verbatim>\<open>success: false\<close> and the
  message of the error is appended and the same error is thrown to the caller.
\<close>

theorem executeTool_outcomes:
  "(functionName \<notin> set tool_names \<longrightarrow>
      fst (executeTool e k functionName args ag)
        = Inl (Error (''Unknown tool: '' @ functionName))) \<and>
   (dispatch e k functionName args (systemTools ag) = (Inr result, st') \<longrightarrow>
      executeTool e k functionName args ag =
        (Inr result,
         ag\<lparr>systemTools := st',
            toolCallHistory := toolCallHistory ag @
              [\<lparr>tc_function = functionName, tc_args = args, tc_result = Some result,
                tc_error = None, tc_executionTime = tool_elapsed e k,
                tc_timestamp = tool_timestamp e k, tc_success = True\<rparr>]\<rparr>)) \<and>
   (dispatch e k functionName args (systemTools ag) = (Inl x, st') \<longrightarrow>
      executeTool e k functionName args ag =
        (Inl x,
         ag\<lparr>systemTools := st',
            toolCallHistory := toolCallHistory ag @
              [\<lparr>tc_function = functionName, tc_args = args, tc_result = None,
                tc_error = Some (message_of x), tc_executionTime = tool_elapsed e k,
                tc_timestamp = tool_timestamp e k, tc_success = False\<rparr>]\<rparr>))"
proof (intro conjI impI)
  assume "functionName \<notin> set tool_names"
  then have "dispatch e k functionName args (systemTools ag)
               = (Inl (Error (''Unknown tool: '' @ functionName)), systemTools ag)"
    by (simp add: tool_names_def dispatch_def)
  then show "fst (executeTool e k functionName args ag)
               = Inl (Error (''Unknown tool: '' @ functionName))"
    by (simp add: executeTool_def)
next
  assume "dispatch e k functionName args (systemTools ag) = (Inr result, st')"
  then show "executeTool e k functionName args ag =
        (Inr result,
         ag\<lparr>systemTools := st',
            toolCallHistory := toolCallHistory ag @
              [\<lparr>tc_function = functionName, tc_args = args, tc_result = Some result,
                tc_error = None, tc_executionTime = tool_elapsed e k,
                tc_timestamp = tool_timestamp e k, tc_success = True\<rparr>]\<rparr>)"
    by (simp add: executeTool_def success_record_def)
next
  assume "dispatch e k functionName args (systemTools ag) = (Inl x, st')"
  then show "executeTool e k functionName args ag =
        (Inl x,
         ag\<lparr>systemTools := st',
            toolCallHistory := toolCallHistory ag @
              [\<lparr>tc_function = functionName, tc_args = args, tc_result = None,
                tc_error = Some (message_of x), tc_executionTime = tool_elapsed e k,
                tc_timestamp = tool_timestamp e k, tc_success = False\<rparr>]\<rparr>)"
    by (simp add: executeTool_def failure_record_def)
qed

text \<open>
  C9, witness: an unknown name, a primitive that returns and a primitive that throws.
\<close>

theorem executeTool_outcomes_witness:
  "''frobnicate'' \<notin> set tool_names \<and>
   dispatch sample_env 0 ''get_current_directory'' (JObj []) (systemTools new_PrivateAgent)
     = (Inr (Text ''/home/user''), new_SystemTools) \<and>
   dispatch sample_env 0 ''execute_command'' (JObj [(''command'', JStr ''reboot'')])
       (systemTools new_PrivateAgent)
     = (Inl blocked, new_SystemTools) \<and>
   fst (executeTool sample_env 0 ''frobnicate'' (JObj []) new_PrivateAgent)
     = Inl (Error ''Unknown tool: frobnicate'') \<and>
   executeTool sample_env 0 ''get_current_directory'' (JObj []) new_PrivateAgent =
     (Inr (Text ''/home/user''),
      new_PrivateAgent\<lparr>systemTools := new_SystemTools,
         toolCallHistory := toolCallHistory new_PrivateAgent @
           [\<lparr>tc_function = ''get_current_directory'', tc_args = JObj [],
             tc_result = Some (Text ''/home/user''), tc_error = None,
             tc_executionTime = tool_elapsed sample_env 0,
             tc_timestamp = tool_timestamp sample_env 0, tc_success = True\<rparr>]\<rparr>) \<and>
   executeTool sample_env 0 ''execute_command'' (JObj [(''command'', JStr ''reboot'')])
       new_PrivateAgent =
     (Inl blocked,
      new_PrivateAgent\<lparr>systemTools := new_SystemTools,
         toolCallHistory := toolCallHistory new_PrivateAgent @
           [\<lparr>tc_function = ''execute_command'',
             tc_args = JObj [(''command'', JStr ''reboot'')], tc_result = None,
             tc_error = Some (message_of blocked),
             tc_executionTime = tool_elapsed sample_env 0,
             tc_timestamp = tool_timestamp sample_env 0, tc_success = False\<rparr>]\<rparr>)"
proof -
  have a: "''frobnicate'' \<notin> set tool_names"
    by (simp add: tool_names_def)
  have b: "dispatch sample_env 0 ''get_current_directory'' (JObj []) (systemTools new_PrivateAgent)
     = (Inr (Text ''/home/user''), new_SystemTools)"
    by (simp add: dispatch_def sample_env_def new_PrivateAgent_def)
  have c: "dispatch sample_env 0 ''execute_command'' (JObj [(''command'', JStr ''reboot'')])
       (systemTools new_PrivateAgent)
     = (Inl blocked, new_SystemTools)"
    using reboot_dangerous
    by (simp add: dispatch_def executeCommand_def Let_def new_PrivateAgent_def)
  from a b c
    executeTool_outcomes [of "''frobnicate''" sample_env 0 "JObj []" new_PrivateAgent]
    executeTool_outcomes [of "''get_current_directory''" sample_env 0 "JObj []" new_PrivateAgent
       "Text ''/home/user''" new_SystemTools]
    executeTool_outcomes [of "''execute_command''" sample_env 0
       "JObj [(''command'', JStr ''reboot'')]" new_PrivateAgent _ new_SystemTools blocked]
  show ?thesis by simp
qed

section \<open>Properties of a streamed turn\<close>

lemma addMessage_fields:
  "model (addMessage r c s) = model s"
  "systemPrompt (addMessage r c s) = systemPrompt s"
  "enableTools (addMessage r c s) = enableTools s"
  "systemTools (addMessage r c s) = systemTools s"
  "toolCallHistory (addMessage r c s) = toolCallHistory s"
  by (simp_all add: addMessage_def checkAndResetContext_def push_message_def Let_def)

lemma executeTool_fields:
  "model (snd (executeTool e k f a ag)) = model ag"
  "enableTools (snd (executeTool e k f a ag)) = enableTools ag"
  by (simp_all add: executeTool_def split: prod.splits sum.splits)

lemma executeToolCalls_fields:
  "model (snd (executeToolCallsAndContinue e k calls ag)) = model ag \<and>
   enableTools (snd (executeToolCallsAndContinue e k calls ag)) = enableTools ag"
proof (induction calls arbitrary: k ag)
  case Nil
  then show ?case by simp
next
  case (Cons tc calls)
  show ?case
    using Cons.IH [of "Suc k" "snd (executeTool e k (fn_name tc) (normalize_arguments e (fn_arguments tc)) ag)"]
    by (simp add: Let_def split_beta executeTool_fields)
qed

lemma executeToolCalls_length:
  "length (fst (executeToolCallsAndContinue e k calls ag)) = length calls"
  by (induction calls arbitrary: k ag) (simp_all add: Let_def split_beta)

lemma continueAfterTools_done:
  assumes "\<forall>q. post_chat e n q = Stream ls (Done c p g)"
  shows "continueAfterTools e n prompt ag =
           (Resolved (accumulate ls @ c),
            addMessage ''assistant'' (accumulate ls @ c) (addMessage ''user'' prompt ag))"
  using assms by (simp add: continueAfterTools_def Let_def)

lemma streamChat_with_tools:
  assumes first: "post_chat e n (initial_request (addMessage ''user'' userMessage ag))
                    = Stream ls (Done c p g)"
    and calls: "extractToolCalls e (accumulate ls @ c) \<noteq> []"
    and on: "enableTools ag" "executeTools"
    and second: "\<forall>q. post_chat e (Suc n) q = Stream ls2 (Done c2 p2 g2)"
  shows "fst (streamChat e n k userMessage executeTools ag) =
           Resolved \<lparr>res_message = accumulate ls @ c, res_model = model ag,
                     contextReset = False,
                     toolCalls = extractToolCalls e (accumulate ls @ c),
                     total_tokens = p + g\<rparr>"
proof -
  have cont: "continueAfterTools e (Suc n) prompt a =
           (Resolved (accumulate ls2 @ c2),
            addMessage ''assistant'' (accumulate ls2 @ c2) (addMessage ''user'' prompt a))"
    for prompt a
    using second by (rule continueAfterTools_done)
  have m: "model (snd (executeToolCallsAndContinue e k calls' a)) = model a" for calls' a
    using executeToolCalls_fields [of e k calls' a] by simp
  show ?thesis
    using first calls on
    by (simp add: streamChat_def Let_def split_beta cont addMessage_fields m)
qed

lemmas regex_defs =
  match_here_def match_function_def match_arguments_def open_tags_def middle_tags_def
  close_tags_def is_space_def

lemma regex_matches_tool_reply:
  "regex_matches (''Let me check. '' @ tool_reply) = [(''get_current_directory'', ''{}'')]"
  by (simp add: tool_reply_def regex_defs)

lemma regex_matches_bad_reply:
  "regex_matches bad_reply = [(''read_file'', ''{filepath: notes.txt}'')]"
  by (simp add: bad_reply_def regex_defs)

text \<open>
  C2, as amended. When the first stream ends with tool calls that are executed and
  the follow-up request completes, the turn resolves and reports as \<^verbatim>\<open>total_tokens\<close>
  the sum of the two counters of the \<^verbatim>\<open>done\<close> fragment of the first request: the
  value is built from the variable \<^verbatim>\<open>parsed\<close> of the first handler. The counters
  \<open>p2\<close> and \<open>g2\<close> of the follow-up request do not occur in it.
\<close>

theorem tool_turn_total_tokens:
  assumes "post_chat e n (initial_request (addMessage ''user'' userMessage ag))
             = Stream ls (Done c p g)"
    and "extractToolCalls e (accumulate ls @ c) \<noteq> []"
    and "enableTools ag" and "executeTools"
    and "\<forall>q. post_chat e (Suc n) q = Stream ls2 (Done c2 p2 g2)"
  shows "\<exists>r ag'. streamChat e n k userMessage executeTools ag = (Resolved r, ag') \<and>
           toolCalls r = extractToolCalls e (accumulate ls @ c) \<and>
           total_tokens r = p + g"
proof -
  from streamChat_with_tools [OF assms, of k]
  have "streamChat e n k userMessage executeTools ag =
          (Resolved \<lparr>res_message = accumulate ls @ c, res_model = model ag,
                     contextReset = False,
                     toolCalls = extractToolCalls e (accumulate ls @ c),
                     total_tokens = p + g\<rparr>,
           snd (streamChat e n k userMessage executeTools ag))"
    by (metis prod.collapse)
  then show ?thesis by force
qed

lemma two_stage_calls:
  "extractToolCalls two_stage_env (''Let me check. '' @ tool_reply)
     = [\<lparr>fn_name = ''get_current_directory'', fn_arguments = JObj []\<rparr>]"
  unfolding extractToolCalls_def regex_matches_tool_reply
  by (simp add: toolCall_of_match_def parse_arguments_def trim_def is_space_def
      two_stage_env_def sample_env_def sample_parse_def)

text \<open>
  C2, counterexample to the statement of the specification: the first request reports 10 and 5, the
  follow-up request 100 and 50, and the turn resolves with 15.
\<close>

theorem tool_turn_reports_first_counters:
  "fst (streamChat two_stage_env 0 0 ''Where am I?'' True new_PrivateAgent) =
     Resolved \<lparr>res_message = ''Let me check. '' @ tool_reply, res_model = ''llama2'',
               contextReset = False,
               toolCalls = [\<lparr>fn_name = ''get_current_directory'', fn_arguments = JObj []\<rparr>],
               total_tokens = 15\<rparr> \<and>
   two_stage_server 0 (initial_request new_PrivateAgent) =
     Stream [Delta ''Let me check. '', Unparsable, Delta tool_reply] (Done [] 10 5) \<and>
   two_stage_server 1 (follow_up_request new_PrivateAgent) =
     Stream [Delta ''You are in /home/user.''] (Done [] 100 50)"
proof -
  have first: "post_chat two_stage_env 0 (initial_request (addMessage ''user'' ''Where am I?'' new_PrivateAgent))
      = Stream [Delta ''Let me check. '', Unparsable, Delta tool_reply] (Done [] 10 5)"
    by (simp add: two_stage_env_def two_stage_server_def)
  have acc: "accumulate [Delta ''Let me check. '', Unparsable, Delta tool_reply] @ []
               = ''Let me check. '' @ tool_reply"
    by (simp add: accumulate_def)
  have calls: "extractToolCalls two_stage_env
                 (accumulate [Delta ''Let me check. '', Unparsable, Delta tool_reply] @ []) \<noteq> []"
    unfolding acc two_stage_calls by simp
  have second: "\<forall>q. post_chat two_stage_env (Suc 0) q
                  = Stream [Delta ''You are in /home/user.''] (Done [] 100 50)"
    by (simp add: two_stage_env_def two_stage_server_def)
  have on: "enableTools new_PrivateAgent"
    by (simp add: new_PrivateAgent_def)
  from streamChat_with_tools [OF first calls on _ second, of True 0]
  have "fst (streamChat two_stage_env 0 0 ''Where am I?'' True new_PrivateAgent) =
     Resolved \<lparr>res_message = ''Let me check. '' @ tool_reply, res_model = model new_PrivateAgent,
               contextReset = False,
               toolCalls = [\<lparr>fn_name = ''get_current_directory'', fn_arguments = JObj []\<rparr>],
               total_tokens = 10 + 5\<rparr>"
    unfolding acc two_stage_calls by simp
  then show ?thesis
    by (simp add: new_PrivateAgent_def two_stage_server_def)
qed

text \<open>
  C2, witness.
\<close>

theorem tool_turn_total_tokens_witness:
  "post_chat two_stage_env 0 (initial_request (addMessage ''user'' ''Where am I?'' new_PrivateAgent))
     = Stream [Delta ''Let me check. '', Unparsable, Delta tool_reply] (Done [] 10 5) \<and>
   extractToolCalls two_stage_env
     (accumulate [Delta ''Let me check. '', Unparsable, Delta tool_reply] @ []) \<noteq> [] \<and>
   enableTools new_PrivateAgent \<and>
   (\<forall>q. post_chat two_stage_env (Suc 0) q
          = Stream [Delta ''You are in /home/user.''] (Done [] 100 50)) \<and>
   (\<exists>r ag'. streamChat two_stage_env 0 0 ''Where am I?'' True new_PrivateAgent = (Resolved r, ag') \<and>
            total_tokens r = 10 + 5)"
proof -
  have first: "post_chat two_stage_env 0 (initial_request (addMessage ''user'' ''Where am I?'' new_PrivateAgent))
      = Stream [Delta ''Let me check. '', Unparsable, Delta tool_reply] (Done [] 10 5)"
    by (simp add: two_stage_env_def two_stage_server_def)
  have acc: "accumulate [Delta ''Let me check. '', Unparsable, Delta tool_reply] @ []
               = ''Let me check. '' @ tool_reply"
    by (simp add: accumulate_def)
  have calls: "extractToolCalls two_stage_env
                 (accumulate [Delta ''Let me check. '', Unparsable, Delta tool_reply] @ []) \<noteq> []"
    unfolding acc two_stage_calls by simp
  have second: "\<forall>q. post_chat two_stage_env (Suc 0) q
                  = Stream [Delta ''You are in /home/user.''] (Done [] 100 50)"
    by (simp add: two_stage_env_def two_stage_server_def)
  have on: "enableTools new_PrivateAgent"
    by (simp add: new_PrivateAgent_def)
  from tool_turn_total_tokens [OF first calls on _ second, of True 0]
  have "\<exists>r ag'. streamChat two_stage_env 0 0 ''Where am I?'' True new_PrivateAgent = (Resolved r, ag') \<and>
            total_tokens r = 10 + 5"
    by blast
  with first calls on second show ?thesis by blast
qed

text \<open>
  C7. A marker found by the extraction whose trimmed arguments text
  \<^verbatim>\<open>JSON.parse\<close> refuses gives an entry with the trimmed function name and the empty
  argument object, and that entry is in the list returned. A turn whose first stream
  ends with this text, with tools enabled and a follow-up request that completes,
  resolves, and its value lists the entry.
\<close>

theorem malformed_arguments_degrade:
  assumes "(g1, g2) \<in> set (regex_matches text)" and "JSON_parse e (trim g2) = None"
  shows "toolCall_of_match e (g1, g2) = \<lparr>fn_name = trim g1, fn_arguments = JObj []\<rparr> \<and>
         \<lparr>fn_name = trim g1, fn_arguments = JObj []\<rparr> \<in> set (extractToolCalls e text) \<and>
         (post_chat e n (initial_request (addMessage ''user'' userMessage ag))
              = Stream ls (Done c pc ec) \<and>
          accumulate ls @ c = text \<and> enableTools ag \<and> executeTools \<and>
          (\<forall>q. post_chat e (Suc n) q = Stream ls2 (Done c2 pc2 ec2)) \<longrightarrow>
          (\<exists>r ag'. streamChat e n k userMessage executeTools ag = (Resolved r, ag') \<and>
                   \<lparr>fn_name = trim g1, fn_arguments = JObj []\<rparr> \<in> set (toolCalls r)))"
proof -
  have a: "toolCall_of_match e (g1, g2) = \<lparr>fn_name = trim g1, fn_arguments = JObj []\<rparr>"
    using assms(2) by (simp add: toolCall_of_match_def parse_arguments_def Let_def)
  have b: "\<lparr>fn_name = trim g1, fn_arguments = JObj []\<rparr> \<in> set (extractToolCalls e text)"
    using assms(1) a by (force simp: extractToolCalls_def)
  have c: "\<exists>r ag'. streamChat e n k userMessage executeTools ag = (Resolved r, ag') \<and>
                   \<lparr>fn_name = trim g1, fn_arguments = JObj []\<rparr> \<in> set (toolCalls r)"
    if h: "post_chat e n (initial_request (addMessage ''user'' userMessage ag))
              = Stream ls (Done c pc ec) \<and>
          accumulate ls @ c = text \<and> enableTools ag \<and> executeTools \<and>
          (\<forall>q. post_chat e (Suc n) q = Stream ls2 (Done c2 pc2 ec2))"
  proof -
    from h b have ne: "extractToolCalls e (accumulate ls @ c) \<noteq> []" by auto
    from h have "fst (streamChat e n k userMessage executeTools ag) =
           Resolved \<lparr>res_message = accumulate ls @ c, res_model = model ag,
                     contextReset = False,
                     toolCalls = extractToolCalls e (accumulate ls @ c),
                     total_tokens = pc + ec\<rparr>"
      using streamChat_with_tools [of e n userMessage ag ls c pc ec executeTools ls2 c2 pc2 ec2 k] ne
      by blast
    then have "streamChat e n k userMessage executeTools ag =
           (Resolved \<lparr>res_message = accumulate ls @ c, res_model = model ag,
                     contextReset = False,
                     toolCalls = extractToolCalls e (accumulate ls @ c),
                     total_tokens = pc + ec\<rparr>,
            snd (streamChat e n k userMessage executeTools ag))"
      by (metis prod.collapse)
    with h b show ?thesis by force
  qed
  from a b c show ?thesis by blast
qed

text \<open>
  C7, witness: arguments with unquoted keys.
\<close>

theorem malformed_arguments_degrade_witness:
  "(''read_file'', ''{filepath: notes.txt}'') \<in> set (regex_matches bad_reply) \<and>
   JSON_parse bad_arguments_env (trim ''{filepath: notes.txt}'') = None \<and>
   post_chat bad_arguments_env 0 (initial_request (addMessage ''user'' ''Show my notes'' new_PrivateAgent))
     = Stream [Delta bad_reply] (Done [] 10 5) \<and>
   accumulate [Delta bad_reply] @ [] = bad_reply \<and> enableTools new_PrivateAgent \<and>
   (\<forall>q. post_chat bad_arguments_env (Suc 0) q
          = Stream [Delta ''I could not read the file.''] (Done [] 20 7)) \<and>
   \<lparr>fn_name = trim ''read_file'', fn_arguments = JObj []\<rparr>
      \<in> set (extractToolCalls bad_arguments_env bad_reply) \<and>
   (\<exists>r ag'. streamChat bad_arguments_env 0 0 ''Show my notes'' True new_PrivateAgent = (Resolved r, ag') \<and>
            \<lparr>fn_name = trim ''read_file'', fn_arguments = JObj []\<rparr> \<in> set (toolCalls r))"
proof -
  have m: "(''read_file'', ''{filepath: notes.txt}'') \<in> set (regex_matches bad_reply)"
    by (simp add: regex_matches_bad_reply)
  have bad: "JSON_parse bad_arguments_env (trim ''{filepath: notes.txt}'') = None"
    by (simp add: bad_arguments_env_def sample_env_def sample_parse_def talked_blob_def
        trim_def is_space_def)
  have first: "post_chat bad_arguments_env 0
                 (initial_request (addMessage ''user'' ''Show my notes'' new_PrivateAgent))
     = Stream [Delta bad_reply] (Done [] 10 5)"
    by (simp add: bad_arguments_env_def bad_arguments_server_def)
  have acc: "accumulate [Delta bad_reply] @ [] = bad_reply"
    by (simp add: accumulate_def)
  have on: "enableTools new_PrivateAgent"
    by (simp add: new_PrivateAgent_def)
  have second: "\<forall>q. post_chat bad_arguments_env (Suc 0) q
          = Stream [Delta ''I could not read the file.''] (Done [] 20 7)"
    by (simp add: bad_arguments_env_def bad_arguments_server_def)
  from malformed_arguments_degrade [OF m bad, of 0 "''Show my notes''" new_PrivateAgent
      "[Delta bad_reply]" "[]" 10 5 True "[Delta ''I could not read the file.'']" "[]" 20 7 0]
    first acc on second
  have "\<lparr>fn_name = trim ''read_file'', fn_arguments = JObj []\<rparr>
      \<in> set (extractToolCalls bad_arguments_env bad_reply) \<and>
   (\<exists>r ag'. streamChat bad_arguments_env 0 0 ''Show my notes'' True new_PrivateAgent = (Resolved r, ag') \<and>
            \<lparr>fn_name = trim ''read_file'', fn_arguments = JObj []\<rparr> \<in> set (toolCalls r))"
    by blast
  with m bad first acc on second show ?thesis by blast
qed

section \<open>Properties of the extraction\<close>

lemma strip_prefix_append: "strip_prefix l (l @ s) = Some s"
  by (induction l) simp_all

lemma strip_prefix_Some: "strip_prefix l s = Some r \<Longrightarrow> s = l @ r"
  by (induction l s rule: strip_prefix.induct) (auto split: if_splits)

lemma test_suffixI: "suffix u s \<Longrightarrow> match_atoms p u \<noteq> None \<Longrightarrow> test p s"
proof (induction s)
  case Nil
  then show ?case by simp
next
  case (Cons c cs)
  from Cons.prems(1) have "u = c # cs \<or> suffix u cs"
    by (simp add: suffix_Cons)
  then show ?case
  proof
    assume "u = c # cs"
    with Cons.prems(2) show ?thesis by simp
  next
    assume "suffix u cs"
    then have "test p cs" using Cons.prems(2) by (rule Cons.IH)
    then show ?thesis by simp
  qed
qed

lemma not_occurs_suffix:
  assumes "\<not> occurs l g" and "suffix u g"
  shows "strip_prefix l u = None"
proof (rule ccontr)
  assume "strip_prefix l u \<noteq> None"
  then have "match_atoms [Lit l] u \<noteq> None" by (auto split: option.splits)
  with assms(2) have "test [Lit l] g" by (rule test_suffixI)
  with assms(1) show False by (simp add: occurs_def)
qed

lemma no_straddle:
  assumes free: "\<not> occurs (CHR ''<'' # l') g"
    and u: "suffix u g" "u \<noteq> []"
    and l': "CHR ''<'' \<notin> set l'"
    and s: "s = [] \<or> hd s = CHR ''<''"
  shows "strip_prefix (CHR ''<'' # l') (u @ s) = None"
proof (rule ccontr)
  assume "strip_prefix (CHR ''<'' # l') (u @ s) \<noteq> None"
  then obtain r where "strip_prefix (CHR ''<'' # l') (u @ s) = Some r" by blast
  then have eq: "u @ s = (CHR ''<'' # l') @ r" by (rule strip_prefix_Some)
  have none: "strip_prefix (CHR ''<'' # l') u = None"
    using free u(1) by (rule not_occurs_suffix)
  from eq obtain ws where
    "(u = (CHR ''<'' # l') @ ws \<and> ws @ s = r) \<or> (u @ ws = CHR ''<'' # l' \<and> s = ws @ r)"
    unfolding append_eq_append_conv2 by blast
  then show False
  proof
    assume "u = (CHR ''<'' # l') @ ws \<and> ws @ s = r"
    then have "strip_prefix (CHR ''<'' # l') u = Some ws"
      using strip_prefix_append [of "CHR ''<'' # l'" ws] by simp
    with none show False by simp
  next
    assume a: "u @ ws = CHR ''<'' # l' \<and> s = ws @ r"
    show False
    proof (cases ws)
      case Nil
      with a have "strip_prefix (CHR ''<'' # l') u = Some []"
        using strip_prefix_append [of "CHR ''<'' # l'" "[]"] by simp
      with none show False by simp
    next
      case (Cons w ws')
      from u(2) a obtain u' where "u = CHR ''<'' # u'" "u' @ ws = l'"
        by (cases u) auto
      with Cons have "w \<in> set l'" by auto
      moreover from a Cons s have "w = CHR ''<''" by auto
      ultimately show False using l' by simp
    qed
  qed
qed

lemma lazy_shortest:
  assumes "\<And>u. suffix u g \<Longrightarrow> u \<noteq> [] \<Longrightarrow> k (u @ s) = None" and "k s = Some r"
  shows "lazy k (g @ s) = Some (g, r)"
  using assms(1)
proof (induction g)
  case Nil
  show ?case using assms(2) by (cases s) simp_all
next
  case (Cons c g)
  have "k ((c # g) @ s) = None"
    by (rule Cons.prems) simp_all
  moreover have "lazy k (g @ s) = Some (g, r)"
  proof (rule Cons.IH)
    fix u assume "suffix u g" "u \<noteq> []"
    then show "k (u @ s) = None"
      using Cons.prems [of u] by (simp add: suffix_ConsI)
  qed
  ultimately show ?case by simp
qed

lemma skip_spaces:
  "list_all is_space w \<Longrightarrow> dropWhile is_space (w @ CHR ''<'' # s) = CHR ''<'' # s"
  by (induction w) (simp_all add: is_space_def)


lemma close_tags_here:
  assumes "list_all is_space w"
  shows "match_atoms close_tags (''</arguments>'' @ w @ ''</tool_call>'' @ rest) = Some rest"
proof -
  have "strip_prefix ''</arguments>'' (''</arguments>'' @ w @ ''</tool_call>'' @ rest)
          = Some (w @ ''</tool_call>'' @ rest)"
    by (rule strip_prefix_append)
  moreover have "dropWhile is_space (w @ ''</tool_call>'' @ rest) = ''</tool_call>'' @ rest"
    using skip_spaces [OF assms, of "''/tool_call>'' @ rest"] by simp
  moreover have "strip_prefix ''</tool_call>'' (''</tool_call>'' @ rest) = Some rest"
    by (rule strip_prefix_append)
  ultimately show ?thesis
    by (simp only: close_tags_def match_atoms.simps option.case)
qed

lemma match_arguments_marker:
  assumes "\<not> occurs ''</arguments>'' args" and "list_all is_space w"
  shows "match_arguments (args @ ''</arguments>'' @ w @ ''</tool_call>'' @ rest) = Some (args, rest)"
  unfolding match_arguments_def
proof (rule lazy_shortest)
  show "match_atoms close_tags (''</arguments>'' @ w @ ''</tool_call>'' @ rest) = Some rest"
    using assms(2) by (rule close_tags_here)
next
  fix u assume u: "suffix u args" "u \<noteq> []"
  have "strip_prefix (CHR ''<'' # ''/arguments>'') (u @ ''</arguments>'' @ w @ ''</tool_call>'' @ rest) = None"
    by (rule no_straddle [OF _ u]) (use assms(1) in simp_all)
  then show "match_atoms close_tags (u @ ''</arguments>'' @ w @ ''</tool_call>'' @ rest) = None"
    by (simp add: close_tags_def)
qed

lemma match_function_marker:
  assumes "\<not> occurs ''</function>'' name" and "list_all is_space w2"
    and "\<not> occurs ''</arguments>'' args" and "list_all is_space w3"
  shows "match_function
           (name @ ''</function>'' @ w2 @ ''<arguments>'' @ args @ ''</arguments>'' @ w3 @
            ''</tool_call>'' @ rest) = Some (name, args, rest)"
  unfolding match_function_def
proof (rule lazy_shortest)
  let ?tail = "args @ ''</arguments>'' @ w3 @ ''</tool_call>'' @ rest"
  have "strip_prefix ''</function>'' (''</function>'' @ w2 @ ''<arguments>'' @ ?tail)
          = Some (w2 @ ''<arguments>'' @ ?tail)"
    by (rule strip_prefix_append)
  moreover have "dropWhile is_space (w2 @ ''<arguments>'' @ ?tail) = ''<arguments>'' @ ?tail"
    using skip_spaces [OF assms(2), of "''arguments>'' @ ?tail"] by simp
  moreover have "strip_prefix ''<arguments>'' (''<arguments>'' @ ?tail) = Some ?tail"
    by (rule strip_prefix_append)
  ultimately have "match_atoms middle_tags (''</function>'' @ w2 @ ''<arguments>'' @ ?tail) = Some ?tail"
    by (simp only: middle_tags_def match_atoms.simps option.case)
  then show "(case match_atoms middle_tags (''</function>'' @ w2 @ ''<arguments>'' @ ?tail) of
               None \<Rightarrow> None | Some u \<Rightarrow> match_arguments u) = Some (args, rest)"
    using match_arguments_marker [OF assms(3,4), of rest] by simp
next
  fix u assume u: "suffix u name" "u \<noteq> []"
  let ?s = "''</function>'' @ w2 @ ''<arguments>'' @ args @ ''</arguments>'' @ w3 @ ''</tool_call>'' @ rest"
  have "strip_prefix (CHR ''<'' # ''/function>'') (u @ ?s) = None"
    by (rule no_straddle [OF _ u]) (use assms(1) in simp_all)
  then show "(case match_atoms middle_tags (u @ ?s) of None \<Rightarrow> None | Some u \<Rightarrow> match_arguments u) = None"
    by (simp add: middle_tags_def)
qed

lemma match_here_marker:
  assumes "tag_free m"
  shows "match_here (render m @ rest) = Some (m_name m, m_arguments m, rest)"
proof -
  let ?tail = "m_name m @ ''</function>'' @ m_space2 m @ ''<arguments>'' @ m_arguments m @
               ''</arguments>'' @ m_space3 m @ ''</tool_call>'' @ rest"
  from assms have wf: "list_all is_space (m_space1 m)" "list_all is_space (m_space2 m)"
    "list_all is_space (m_space3 m)" "\<not> occurs ''</function>'' (m_name m)"
    "\<not> occurs ''</arguments>'' (m_arguments m)"
    by (simp_all add: tag_free_def)
  have r: "render m @ rest = ''<tool_call>'' @ m_space1 m @ ''<function>'' @ ?tail"
    by (simp add: render_def)
  have "strip_prefix ''<tool_call>'' (''<tool_call>'' @ m_space1 m @ ''<function>'' @ ?tail)
          = Some (m_space1 m @ ''<function>'' @ ?tail)"
    by (rule strip_prefix_append)
  moreover have "dropWhile is_space (m_space1 m @ ''<function>'' @ ?tail) = ''<function>'' @ ?tail"
    using skip_spaces [OF wf(1), of "''function>'' @ ?tail"] by simp
  moreover have "strip_prefix ''<function>'' (''<function>'' @ ?tail) = Some ?tail"
    by (rule strip_prefix_append)
  ultimately have "match_atoms open_tags (render m @ rest) = Some ?tail"
    unfolding r by (simp only: open_tags_def match_atoms.simps option.case)
  moreover have "match_function ?tail = Some (m_name m, m_arguments m, rest)"
    using wf(4,2,5,3) by (rule match_function_marker)
  ultimately show ?thesis by (simp add: match_here_def)
qed

lemma regex_matches_marker:
  assumes "tag_free m"
  shows "regex_matches (render m @ rest) = (m_name m, m_arguments m) # regex_matches rest"
proof -
  obtain cs where cs: "render m @ rest = CHR ''<'' # cs"
    by (simp add: render_def)
  have "match_here (CHR ''<'' # cs) = Some (m_name m, m_arguments m, rest)"
    using match_here_marker [OF assms, of rest] cs by simp
  then have "regex_matches (CHR ''<'' # cs) = (m_name m, m_arguments m) # regex_matches rest"
    by simp
  with cs show ?thesis by simp
qed

lemma regex_matches_plain:
  assumes "plain p" and "s = [] \<or> hd s = CHR ''<''"
  shows "regex_matches (p @ s) = regex_matches s"
  using assms(1)
proof (induction p)
  case Nil
  then show ?case by simp
next
  case (Cons c p)
  have "strip_prefix (CHR ''<'' # ''tool_call>'') ((c # p) @ s) = None"
    by (rule no_straddle [OF _ _ _ _ assms(2), of _ "c # p"])
      (use Cons.prems in \<open>simp_all add: plain_def\<close>)
  then have "match_here (c # p @ s) = None"
    by (simp add: match_here_def open_tags_def)
  moreover have "plain p"
    using Cons.prems by (simp add: plain_def occurs_def)
  ultimately show ?case using Cons.IH by simp
qed

lemma render_head: "hd (render m @ rest) = CHR ''<''"
  by (simp add: render_def)

lemma regex_matches_assemble:
  assumes "list_all (\<lambda>(p, m). plain p \<and> tag_free m) pms" and "plain tail"
  shows "regex_matches (assemble pms tail) = map (\<lambda>(p, m). (m_name m, m_arguments m)) pms"
  using assms(1)
proof (induction pms)
  case Nil
  have "regex_matches (tail @ []) = regex_matches []"
    using assms(2) by (rule regex_matches_plain) simp
  then show ?case by simp
next
  case (Cons pm pms)
  obtain p m where pm: "pm = (p, m)" by (cases pm)
  with Cons.prems have p: "plain p" and m: "tag_free m"
    and rest: "list_all (\<lambda>(p, m). plain p \<and> tag_free m) pms"
    by simp_all
  have "regex_matches (p @ render m @ assemble pms tail) = regex_matches (render m @ assemble pms tail)"
    using p by (rule regex_matches_plain) (simp add: render_head)
  also have "\<dots> = (m_name m, m_arguments m) # regex_matches (assemble pms tail)"
    using m by (rule regex_matches_marker)
  finally show ?case using Cons.IH [OF rest] pm by simp
qed


text \<open>
  C3, as amended. For a text made of \<open>N\<close> markers free of closing tags, with plain
  text before, between and after them, the extraction returns exactly \<open>N\<close> entries, in
  the order of the markers, each with the trimmed name and the parsed arguments of its
  marker. The extraction is a function of the text alone (the expression is created in
  each call, so no \<^verbatim>\<open>lastIndex\<close> survives it): repeating it gives the same list.
\<close>

theorem extraction_in_order:
  assumes "list_all (\<lambda>(p, m). plain p \<and> tag_free m) pms" and "plain tail"
  shows "extractToolCalls e (assemble pms tail) =
           map (\<lambda>(p, m). \<lparr>fn_name = trim (m_name m),
                           fn_arguments = parse_arguments e (m_arguments m)\<rparr>) pms \<and>
         length (extractToolCalls e (assemble pms tail)) = length pms \<and>
         map fn_name (extractToolCalls e (assemble pms tail)) = map (\<lambda>(p, m). trim (m_name m)) pms"
proof -
  have "extractToolCalls e (assemble pms tail) =
           map (\<lambda>(p, m). \<lparr>fn_name = trim (m_name m),
                           fn_arguments = parse_arguments e (m_arguments m)\<rparr>) pms"
    unfolding extractToolCalls_def regex_matches_assemble [OF assms]
    by (simp add: toolCall_of_match_def split_beta)
  then show ?thesis by (simp add: split_beta comp_def)
qed

text \<open>
  C3, witness.
\<close>

theorem extraction_in_order_witness:
  "list_all (\<lambda>(p, m). plain p \<and> tag_free m) sample_markers \<and> plain '' Done.'' \<and>
   extractToolCalls sample_env (assemble sample_markers '' Done.'') =
     [\<lparr>fn_name = ''list_directory'',
       fn_arguments = JObj [(''path'', JStr ''.''), (''detailed'', JBool True)]\<rparr>,
      \<lparr>fn_name = ''read_file'', fn_arguments = JObj [(''filepath'', JStr ''notes.txt'')]\<rparr>]"
proof -
  have a: "list_all (\<lambda>(p, m). plain p \<and> tag_free m) sample_markers"
    by (simp add: sample_markers_def plain_def tag_free_def occurs_def is_space_def)
  have b: "plain '' Done.''"
    by (simp add: plain_def occurs_def)
  from extraction_in_order [OF a b, of sample_env]
  have "extractToolCalls sample_env (assemble sample_markers '' Done.'') =
          map (\<lambda>(p, m). \<lparr>fn_name = trim (m_name m),
                          fn_arguments = parse_arguments sample_env (m_arguments m)\<rparr>)
            sample_markers"
    by blast
  also have "\<dots> =
     [\<lparr>fn_name = ''list_directory'',
       fn_arguments = JObj [(''path'', JStr ''.''), (''detailed'', JBool True)]\<rparr>,
      \<lparr>fn_name = ''read_file'', fn_arguments = JObj [(''filepath'', JStr ''notes.txt'')]\<rparr>]"
    by (simp add: sample_markers_def parse_arguments_def trim_def is_space_def sample_env_def
        sample_parse_def)
  finally show ?thesis using a b by simp
qed

text \<open>
  C3, counterexample to the statement of the specification: one marker whose JSON arguments hold the
  closing tags and a further opening in a string gives two entries.
\<close>

theorem nested_marker_two_entries:
  "map fn_name (extractToolCalls sample_env (assemble [([], nested_marker)] []))
     = [''write_file'', ''g''] \<and>
   length (extractToolCalls sample_env (assemble [([], nested_marker)] []))
     \<noteq> length [([], nested_marker)]"
proof -
  have "regex_matches (assemble [([], nested_marker)] [])
          = [(''write_file'', [CHR ''{'', CHR 0x22, CHR ''c'', CHR ''o'', CHR ''n'', CHR ''t'',
                CHR ''e'', CHR ''n'', CHR ''t'', CHR 0x22, CHR '':'', CHR 0x22]),
             (''g'', [CHR ''{'', CHR ''}'', CHR 0x22, CHR ''}''])]"
    by (simp add: nested_marker_def render_def regex_defs)
  then show ?thesis
    by (simp add: extractToolCalls_def toolCall_of_match_def trim_def is_space_def)
qed

section \<open>Export followed by import\<close>

lemma as_message_json: "as_message (message_json m) = Some m"
  by (simp add: message_json_def)

lemma those_map_Some: "(\<And>x. f (g x) = Some x) \<Longrightarrow> those (map (f \<circ> g) xs) = Some xs"
  by (induction xs) simp_all

lemma those_as_message: "those (map (as_message \<circ> message_json) h) = Some h"
  by (rule those_map_Some) (rule as_message_json)

lemma import_exported:
  assumes "JSON_parse e (JSON_stringify e (export_document ts ag)) = Some (export_document ts ag)"
  shows "importHistory e (exportHistory e ts ag) ag2 =
           Imported (ag2\<lparr>model := or_string (Some (model ag)) (model ag2),
                         systemPrompt := or_string (Some (systemPrompt ag)) (systemPrompt ag2),
                         conversationHistory := conversationHistory ag\<rparr>)"
  using assms
  by (simp add: importHistory_def exportHistory_def)
    (simp add: export_document_def those_as_message)

text \<open>
  C6. When \<^verbatim>\<open>JSON.parse\<close> gives back the document \<^verbatim>\<open>JSON.stringify\<close> was given,
  \<^verbatim>\<open>exportHistory\<close> followed by \<^verbatim>\<open>importHistory\<close> of the exported text leaves the
  agent as it was: the same model, system prompt and history. Imported into another
  agent \<open>ag2\<close>, the text sets the history, and the model and the system prompt unless
  the exported one is the empty string.
\<close>

theorem export_import_roundtrip:
  assumes "JSON_parse e (JSON_stringify e (export_document ts ag)) = Some (export_document ts ag)"
  shows "importHistory e (exportHistory e ts ag) ag = Imported ag \<and>
         importHistory e (exportHistory e ts ag) ag2 =
           Imported (ag2\<lparr>model := or_string (Some (model ag)) (model ag2),
                         systemPrompt := or_string (Some (systemPrompt ag)) (systemPrompt ag2),
                         conversationHistory := conversationHistory ag\<rparr>)"
proof -
  have "ag\<lparr>model := or_string (Some (model ag)) (model ag),
           systemPrompt := or_string (Some (systemPrompt ag)) (systemPrompt ag),
           conversationHistory := conversationHistory ag\<rparr> = ag"
    by simp
  with import_exported [OF assms, of ag] import_exported [OF assms, of ag2]
  show ?thesis by simp
qed

text \<open>
  C6, witness.
\<close>

theorem export_import_roundtrip_witness:
  "JSON_parse sample_env
     (JSON_stringify sample_env (export_document ''2024-01-01T00:00:00.000Z'' talked_agent))
     = Some (export_document ''2024-01-01T00:00:00.000Z'' talked_agent) \<and>
   exportHistory sample_env ''2024-01-01T00:00:00.000Z'' talked_agent = talked_blob \<and>
   importHistory sample_env talked_blob talked_agent = Imported talked_agent"
proof -
  have b: "JSON_stringify sample_env (export_document ''2024-01-01T00:00:00.000Z'' talked_agent)
             = talked_blob"
    by (simp add: sample_env_def sample_stringify_def)
  have c: "JSON_parse sample_env talked_blob
             = Some (export_document ''2024-01-01T00:00:00.000Z'' talked_agent)"
    by (simp add: sample_env_def sample_parse_def talked_blob_def)
  have a: "JSON_parse sample_env
     (JSON_stringify sample_env (export_document ''2024-01-01T00:00:00.000Z'' talked_agent))
     = Some (export_document ''2024-01-01T00:00:00.000Z'' talked_agent)"
    unfolding b by (rule c)
  have d: "exportHistory sample_env ''2024-01-01T00:00:00.000Z'' talked_agent = talked_blob"
    unfolding exportHistory_def by (rule b)
  from export_import_roundtrip [OF a, of talked_agent] a d show ?thesis by simp
qed

end
